theory Spec2Isabelle
  imports Complex_Main "HOL-Library.Word" "HOL-Library.Multiset" "HOL-Library.Log_Nat"
begin

section \<open>Numbers, strings and enumerations (types/stats.ts)\<close>

text \<open>
  The TypeScript sources compute with \<open>number\<close>, an IEEE-754 double. A finite double is a
  rational, so a number is a \<open>rat\<close>, and every arithmetic operator returns the rounded exact
  result. Counters (correct, incorrect, attempts, sessions, streaks) hold non-negative
  integers and are passed as \<open>nat\<close>; every natural below \<open>2\<^sup>5\<^sup>3\<close> is a double, and sums of
  counters that stay below \<open>2\<^sup>5\<^sup>3\<close> are exact. A string is its sequence of UTF-16 code
  units.
\<close>

type_synonym jsstring = "16 word list"

datatype ContentType = Kana | Kanji | Vocabulary

datatype ContentFilter = All | Only ContentType

datatype MasteryLevel = Mastered | Learning | NeedsPractice

section \<open>Double-precision arithmetic\<close>

text \<open>
  \<open>binary64\<close> rounds a rational to the nearest double, ties to the even significand:
  \<open>binade x\<close> is the exponent \<open>e\<close> with \<open>2\<^sup>e \<le> x < 2\<^sup>e\<^sup>+\<^sup>1\<close>, and doubles in that binade
  are the multiples of \<open>2\<^sup>e\<^sup>-\<^sup>5\<^sup>2\<close>. Exponent limits (overflow and subnormals) are not
  modelled: for counters below \<open>2\<^sup>5\<^sup>3\<close> the values computed below are 0 or lie between
  \<open>2\<^sup>-\<^sup>5\<^sup>4\<close> and \<open>2\<^sup>5\<^sup>4\<close>.
\<close>

definition binade :: "rat \<Rightarrow> int" where
  "binade x =
     (let (p, q) = quotient_of x;
          e = bitlen p - bitlen q
      in if x < 2 powi e then e - 1 else e)"

definition roundTiesToEven :: "rat \<Rightarrow> int" where
  "roundTiesToEven y =
     (let n = \<lfloor>y\<rfloor>; r = y - of_int n in
      if r < 1 / 2 then n
      else if r > 1 / 2 then n + 1
      else if even n then n else n + 1)"

definition binary64 :: "rat \<Rightarrow> rat" where
  "binary64 x =
     (if x = 0 then 0
      else
        let ulp = 2 powi (binade \<bar>x\<bar> - 52) in
        of_int (roundTiesToEven (x / ulp)) * ulp)"

definition js_div :: "rat \<Rightarrow> rat \<Rightarrow> rat" where
  "js_div a b = binary64 (a / b)"

definition js_mul :: "rat \<Rightarrow> rat \<Rightarrow> rat" where
  "js_mul a b = binary64 (a * b)"

definition js_add :: "rat \<Rightarrow> rat \<Rightarrow> rat" where
  "js_add a b = binary64 (a + b)"

section \<open>lib/classifyCharacter.ts\<close>

definition MASTERED_MIN_ATTEMPTS :: rat where
  "MASTERED_MIN_ATTEMPTS = 10"

definition MASTERED_MIN_ACCURACY :: rat where
  "MASTERED_MIN_ACCURACY = binary64 (9 / 10)"

definition NEEDS_PRACTICE_MIN_ATTEMPTS :: rat where
  "NEEDS_PRACTICE_MIN_ATTEMPTS = 5"

definition NEEDS_PRACTICE_MAX_ACCURACY :: rat where
  "NEEDS_PRACTICE_MAX_ACCURACY = binary64 (7 / 10)"

text \<open>The literals \<open>0.9\<close> and \<open>0.7\<close> denote the doubles nearest to 9/10 and 7/10.\<close>

definition classifyCharacter :: "nat \<Rightarrow> nat \<Rightarrow> MasteryLevel" where
  "classifyCharacter correct incorrect =
     (let total = js_add (of_nat correct) (of_nat incorrect) in
      if total = 0 then Learning
      else
        let accuracy = js_div (of_nat correct) total in
        if total \<ge> MASTERED_MIN_ATTEMPTS \<and> accuracy \<ge> MASTERED_MIN_ACCURACY then Mastered
        else if total \<ge> NEEDS_PRACTICE_MIN_ATTEMPTS \<and> accuracy < NEEDS_PRACTICE_MAX_ACCURACY
        then NeedsPractice
        else Learning)"

section \<open>lib/calculateAccuracy.ts\<close>

definition calculateAccuracy :: "nat \<Rightarrow> nat \<Rightarrow> rat" where
  "calculateAccuracy correct incorrect =
     (let total = js_add (of_nat correct) (of_nat incorrect) in
      if total = 0 then 0
      else js_mul (js_div (of_nat correct) total) 100)"

section \<open>lib/detectContentType.ts\<close>

definition HIRAGANA_START :: nat where "HIRAGANA_START = 0x3040"
definition HIRAGANA_END :: nat where "HIRAGANA_END = 0x309f"
definition KATAKANA_START :: nat where "KATAKANA_START = 0x30a0"
definition KATAKANA_END :: nat where "KATAKANA_END = 0x30ff"
definition KANJI_START :: nat where "KANJI_START = 0x4e00"
definition KANJI_END :: nat where "KANJI_END = 0x9faf"

definition isHiragana :: "nat \<Rightarrow> bool" where
  "isHiragana code \<longleftrightarrow> code \<ge> HIRAGANA_START \<and> code \<le> HIRAGANA_END"

definition isKatakana :: "nat \<Rightarrow> bool" where
  "isKatakana code \<longleftrightarrow> code \<ge> KATAKANA_START \<and> code \<le> KATAKANA_END"

definition isKanji :: "nat \<Rightarrow> bool" where
  "isKanji code \<longleftrightarrow> code \<ge> KANJI_START \<and> code \<le> KANJI_END"

definition isKana :: "nat \<Rightarrow> bool" where
  "isKana code \<longleftrightarrow> isHiragana code \<or> isKatakana code"

text \<open>
  \<open>character.charCodeAt(0)\<close> is only reached for a string of exactly one code unit, so the
  read \<open>character ! 0\<close> is in range. \<open>!character\<close> is true exactly for the empty string.
\<close>

definition detectContentType :: "jsstring \<Rightarrow> ContentType" where
  "detectContentType character =
     (if character = [] \<or> length character = 0 then Vocabulary
      else if length character > 1 then Vocabulary
      else
        let code = unat (character ! 0) in
        if isKana code then Kana
        else if isKanji code then Kanji
        else Kanji)"

section \<open>Records of types/stats.ts\<close>

record CharacterMasteryItem =
  character :: jsstring
  correct :: nat
  incorrect :: nat
  total :: nat
  accuracy :: rat
  masteryLevel :: MasteryLevel
  contentType :: ContentType

record MasteryDistribution =
  mastered :: nat
  learning :: nat
  needsPractice :: nat
  total :: nat

section \<open>hooks/useStatsAggregator.ts\<close>

subsection \<open>calculateMasteryDistribution\<close>

text \<open>The body of the \<open>for (const item of items)\<close> loop: one \<open>switch\<close> on the level.\<close>

definition countItem :: "MasteryDistribution \<Rightarrow> CharacterMasteryItem \<Rightarrow> MasteryDistribution" where
  "countItem distribution item =
     (case masteryLevel item of
        Mastered \<Rightarrow> distribution\<lparr>mastered := mastered distribution + 1\<rparr>
      | Learning \<Rightarrow> distribution\<lparr>learning := learning distribution + 1\<rparr>
      | NeedsPractice \<Rightarrow> distribution\<lparr>needsPractice := needsPractice distribution + 1\<rparr>)"

fun countItems :: "MasteryDistribution \<Rightarrow> CharacterMasteryItem list \<Rightarrow> MasteryDistribution" where
  "countItems distribution [] = distribution"
| "countItems distribution (item # items) = countItems (countItem distribution item) items"

definition calculateMasteryDistribution :: "CharacterMasteryItem list \<Rightarrow> MasteryDistribution" where
  "calculateMasteryDistribution items =
     countItems \<lparr>mastered = 0, learning = 0, needsPractice = 0, total = length items\<rparr> items"

subsection \<open>Array methods on values\<close>

text \<open>
  \<open>Array.prototype.sort\<close> with a comparator is a stable sort: an element goes before the
  first element it does not compare greater than. \<open>slice(0, end)\<close> for an integer
  \<open>end\<close> counts a negative \<open>end\<close> from the back and clamps to the length.
\<close>

fun insertBy :: "('a \<Rightarrow> 'a \<Rightarrow> rat) \<Rightarrow> 'a \<Rightarrow> 'a list \<Rightarrow> 'a list" where
  "insertBy cmp a [] = [a]"
| "insertBy cmp a (b # bs) = (if cmp a b \<le> 0 then a # b # bs else b # insertBy cmp a bs)"

definition sortBy :: "('a \<Rightarrow> 'a \<Rightarrow> rat) \<Rightarrow> 'a list \<Rightarrow> 'a list" where
  "sortBy cmp xs = foldr (insertBy cmp) xs []"

definition slice0 :: "'a list \<Rightarrow> int \<Rightarrow> 'a list" where
  "slice0 xs end =
     (let len = int (length xs);
          final = (if end < 0 then max (len + end) 0 else min end len)
      in take (nat final) xs)"

subsection \<open>filterCharacterMasteryByType, getTopDifficultCharacters, getTopMasteredCharacters\<close>

definition filterCharacterMasteryByType ::
  "CharacterMasteryItem list \<Rightarrow> ContentFilter \<Rightarrow> CharacterMasteryItem list" where
  "filterCharacterMasteryByType items filter' =
     (case filter' of
        All \<Rightarrow> items
      | Only t \<Rightarrow> filter (\<lambda>item. contentType item = t) items)"

definition getTopDifficultCharacters ::
  "CharacterMasteryItem list \<Rightarrow> int \<Rightarrow> nat \<Rightarrow> CharacterMasteryItem list" where
  "getTopDifficultCharacters items count' minAttempts =
     slice0
       (sortBy (\<lambda>a b. CharacterMasteryItem.accuracy a - CharacterMasteryItem.accuracy b)
          (filter (\<lambda>item. CharacterMasteryItem.total item \<ge> minAttempts) items))
       count'"

definition getTopMasteredCharacters ::
  "CharacterMasteryItem list \<Rightarrow> int \<Rightarrow> CharacterMasteryItem list" where
  "getTopMasteredCharacters items count' =
     slice0
       (sortBy (\<lambda>a b. CharacterMasteryItem.accuracy b - CharacterMasteryItem.accuracy a)
          (filter (\<lambda>item. masteryLevel item = Mastered) items))
       count'"

subsection \<open>loadGauntletStats\<close>

text \<open>
  Modelled from the spec: the result type of \<open>getOverallStats\<close> (shared/lib/gauntletStats,
  not among the sources): the per-content-type query returns totalSessions,
  completedSessions, totalCorrect, totalWrong, bestStreak and fastestTime-or-null.
\<close>

record OverallStats =
  totalSessions :: nat
  completedSessions :: nat
  totalCorrect :: nat
  totalWrong :: nat
  bestStreak :: nat
  fastestTime :: "nat option"

record GauntletOverallStats =
  totalSessions :: nat
  completedSessions :: nat
  completionRate :: rat
  totalCorrect :: nat
  totalWrong :: nat
  bestStreak :: nat
  fastestTime :: "nat option"
  accuracy :: rat

text \<open>
  A fetch either fulfils with a value or rejects with a reason. \<open>Promise.all\<close> fulfils
  with all three values when every fetch fulfils, and rejects when one rejects; with several
  rejections the reason is that of the earliest one in time, for which the leftmost stands
  here (the reason is only logged).
\<close>

datatype js_error = Error string

datatype console_entry = Warn string js_error | LogError string js_error

definition promiseAll3 ::
  "js_error + 'a \<Rightarrow> js_error + 'a \<Rightarrow> js_error + 'a \<Rightarrow> js_error + ('a \<times> 'a \<times> 'a)" where
  "promiseAll3 p q r =
     (case p of
        Inl e \<Rightarrow> Inl e
      | Inr a \<Rightarrow>
          (case q of
             Inl e \<Rightarrow> Inl e
           | Inr b \<Rightarrow> (case r of Inl e \<Rightarrow> Inl e | Inr c \<Rightarrow> Inr (a, b, c))))"

text \<open>
  \<open>loadGauntletStats\<close> takes the outcomes of \<open>getOverallStats('kana')\<close>,
  \<open>getOverallStats('kanji')\<close> and \<open>getOverallStats('vocabulary')\<close>. Its result is the
  outcome of its promise (\<open>Inl\<close>: rejected) together with what it wrote to the console.
  \<open>Math.min(...fastestTimes)\<close> is only evaluated on a non-empty array. The counters are
  added as naturals, which is what the doubles do while the sums stay below \<open>2\<^sup>5\<^sup>3\<close>.
\<close>

definition loadGauntletStats ::
  "js_error + OverallStats \<Rightarrow> js_error + OverallStats \<Rightarrow> js_error + OverallStats \<Rightarrow>
   (js_error + GauntletOverallStats option) \<times> console_entry list" where
  "loadGauntletStats kanaFetch kanjiFetch vocabFetch =
     (case promiseAll3 kanaFetch kanjiFetch vocabFetch of
        Inr (kanaStats, kanjiStats, vocabStats) \<Rightarrow>
          let totalSessions =
                OverallStats.totalSessions kanaStats +
                OverallStats.totalSessions kanjiStats +
                OverallStats.totalSessions vocabStats
          in
          if totalSessions = 0 then (Inr None, [])
          else
            let completedSessions =
                  OverallStats.completedSessions kanaStats +
                  OverallStats.completedSessions kanjiStats +
                  OverallStats.completedSessions vocabStats;
                totalCorrect =
                  OverallStats.totalCorrect kanaStats +
                  OverallStats.totalCorrect kanjiStats +
                  OverallStats.totalCorrect vocabStats;
                totalWrong =
                  OverallStats.totalWrong kanaStats + OverallStats.totalWrong kanjiStats +
                  OverallStats.totalWrong vocabStats;
                bestStreak =
                  max (OverallStats.bestStreak kanaStats)
                    (max (OverallStats.bestStreak kanjiStats) (OverallStats.bestStreak vocabStats));
                fastestTimes =
                  List.map_filter (\<lambda>t. t)
                    [OverallStats.fastestTime kanaStats,
                     OverallStats.fastestTime kanjiStats,
                     OverallStats.fastestTime vocabStats];
                fastestTime =
                  (case fastestTimes of [] \<Rightarrow> None | t # ts \<Rightarrow> Some (fold min ts t));
                completionRate =
                  (if totalSessions > 0
                   then js_mul (js_div (of_nat completedSessions) (of_nat totalSessions)) 100
                   else 0);
                accuracy = calculateAccuracy totalCorrect totalWrong
            in
            (Inr (Some
               \<lparr>totalSessions = totalSessions,
                completedSessions = completedSessions,
                completionRate = completionRate,
                totalCorrect = totalCorrect,
                totalWrong = totalWrong,
                bestStreak = bestStreak,
                fastestTime = fastestTime,
                accuracy = accuracy\<rparr>), [])
      | Inl error \<Rightarrow>
          (Inr None, [Warn ''[useStatsAggregator] Failed to load gauntlet stats:'' error]))"

subsection \<open>refreshGauntletStats\<close>

text \<open>
  The three \<open>useState\<close> cells of the hook, and the console. The callback sets the loading
  flag, clears the error, awaits \<open>loadGauntletStats\<close> inside \<open>try\<close>, and clears the loading
  flag in \<open>finally\<close>.
\<close>

record HookState =
  gauntletStats :: "GauntletOverallStats option"
  isLoading :: bool
  error :: "string option"
  console :: "console_entry list"

definition initialHookState :: HookState where
  "initialHookState = \<lparr>gauntletStats = None, isLoading = True, error = None, console = []\<rparr>"

definition refreshGauntletStats ::
  "js_error + OverallStats \<Rightarrow> js_error + OverallStats \<Rightarrow> js_error + OverallStats \<Rightarrow>
   HookState \<Rightarrow> HookState" where
  "refreshGauntletStats kanaFetch kanjiFetch vocabFetch s0 =
     (let s1 = s0\<lparr>isLoading := True\<rparr>;
          s2 = s1\<lparr>error := None\<rparr>;
          (outcome, written) = loadGauntletStats kanaFetch kanjiFetch vocabFetch;
          s3 = s2\<lparr>console := console s2 @ written\<rparr>;
          s4 =
            (case outcome of
               Inr stats \<Rightarrow> s3\<lparr>gauntletStats := stats\<rparr>
             | Inl err \<Rightarrow>
                 s3\<lparr>error := Some ''Failed to load gauntlet stats'',
                    console := console s3 @
                      [LogError ''[useStatsAggregator] Error loading gauntlet stats:'' err]\<rparr>)
      in s4\<lparr>isLoading := False\<rparr>)"

subsection \<open>Arrays as objects\<close>

text \<open>
  An array variable holds a reference. The heap lists the arrays allocated so far, a
  reference being an index into it. \<open>filter\<close>, \<open>slice\<close> and the spread \<open>[...xs]\<close>
  allocate a new array; \<open>sort\<close> overwrites the array it is called on and returns the same
  reference. A reference held by the program always points to an allocated array.
\<close>

type_synonym ref = nat

type_synonym heap = "CharacterMasteryItem list list"

definition newArray :: "CharacterMasteryItem list \<Rightarrow> heap \<Rightarrow> ref \<times> heap" where
  "newArray xs h = (length h, h @ [xs])"

definition Array_filter :: "(CharacterMasteryItem \<Rightarrow> bool) \<Rightarrow> ref \<Rightarrow> heap \<Rightarrow> ref \<times> heap" where
  "Array_filter p r h = newArray (filter p (h ! r)) h"

definition Array_sort ::
  "(CharacterMasteryItem \<Rightarrow> CharacterMasteryItem \<Rightarrow> rat) \<Rightarrow> ref \<Rightarrow> heap \<Rightarrow> ref \<times> heap" where
  "Array_sort cmp r h = (r, h[r := sortBy cmp (h ! r)])"

definition Array_slice0 :: "int \<Rightarrow> ref \<Rightarrow> heap \<Rightarrow> ref \<times> heap" where
  "Array_slice0 end r h = newArray (slice0 (h ! r) end) h"

definition Array_spread :: "ref \<Rightarrow> heap \<Rightarrow> ref \<times> heap" where
  "Array_spread r h = newArray (h ! r) h"

definition filterCharacterMasteryByType_heap :: "ref \<Rightarrow> ContentFilter \<Rightarrow> heap \<Rightarrow> ref \<times> heap" where
  "filterCharacterMasteryByType_heap items filter' h =
     (case filter' of
        All \<Rightarrow> (items, h)
      | Only t \<Rightarrow> Array_filter (\<lambda>item. contentType item = t) items h)"

definition getTopDifficultCharacters_heap :: "ref \<Rightarrow> int \<Rightarrow> nat \<Rightarrow> heap \<Rightarrow> ref \<times> heap" where
  "getTopDifficultCharacters_heap items count' minAttempts h =
     (let (filtered, h1) =
            Array_filter (\<lambda>item. CharacterMasteryItem.total item \<ge> minAttempts) items h;
          (sorted, h2) =
            Array_sort (\<lambda>a b. CharacterMasteryItem.accuracy a - CharacterMasteryItem.accuracy b)
              filtered h1
      in Array_slice0 count' sorted h2)"

definition getTopMasteredCharacters_heap :: "ref \<Rightarrow> int \<Rightarrow> heap \<Rightarrow> ref \<times> heap" where
  "getTopMasteredCharacters_heap items count' h =
     (let (filtered, h1) = Array_filter (\<lambda>item. masteryLevel item = Mastered) items h;
          (sorted, h2) =
            Array_sort (\<lambda>a b. CharacterMasteryItem.accuracy b - CharacterMasteryItem.accuracy a)
              filtered h1
      in Array_slice0 count' sorted h2)"

section \<open>components/stats/CharacterMasteryPanel.tsx\<close>

datatype SortBy = Difficult | MasteredFirst

definition getTopCharacters ::
  "CharacterMasteryItem list \<Rightarrow> int \<Rightarrow> SortBy \<Rightarrow> CharacterMasteryItem list" where
  "getTopCharacters characters count' sortBy' =
     (let filtered =
            filter (\<lambda>char.
              if sortBy' = Difficult then CharacterMasteryItem.total char \<ge> 5
              else masteryLevel char = Mastered) characters;
          sorted =
            sortBy (\<lambda>a b.
              if sortBy' = Difficult then CharacterMasteryItem.accuracy a - CharacterMasteryItem.accuracy b
              else CharacterMasteryItem.accuracy b - CharacterMasteryItem.accuracy a) filtered
      in slice0 sorted count')"


definition getTopCharacters_heap :: "ref \<Rightarrow> int \<Rightarrow> SortBy \<Rightarrow> heap \<Rightarrow> ref \<times> heap" where
  "getTopCharacters_heap characters count' sortBy' h =
     (let (filtered, h1) =
            Array_filter (\<lambda>char.
              if sortBy' = Difficult then CharacterMasteryItem.total char \<ge> 5
              else masteryLevel char = Mastered) characters h;
          (copy, h2) = Array_spread filtered h1;
          (sorted, h3) =
            Array_sort (\<lambda>a b.
              if sortBy' = Difficult
              then CharacterMasteryItem.accuracy a - CharacterMasteryItem.accuracy b
              else CharacterMasteryItem.accuracy b - CharacterMasteryItem.accuracy a) copy h2
      in Array_slice0 count' sorted h3)"

section \<open>components/stats/MasteryDistributionChart.tsx\<close>

subsection \<open>calculatePercentage, getMasteryDistributionDisplayValues\<close>

definition calculatePercentage :: "nat \<Rightarrow> nat \<Rightarrow> rat" where
  "calculatePercentage value total' =
     (if total' = 0 then 0
      else js_mul (js_div (of_nat value) (of_nat total')) 100)"

text \<open>
  \<open>x.toFixed(1)\<close> for \<open>x \<ge> 0\<close>: the integer \<open>n\<close> with \<open>n / 10\<close> nearest to \<open>x\<close> (the
  larger one on a tie), printed with one digit after the point.
\<close>

fun decimal :: "nat \<Rightarrow> string" where
  "decimal n =
     (if n < 10 then [char_of (48 + n)]
      else decimal (n div 10) @ [char_of (48 + n mod 10)])"

definition toFixed1 :: "rat \<Rightarrow> string" where
  "toFixed1 x =
     (let n = nat \<lfloor>x * 10 + 1 / 2\<rfloor>
      in decimal (n div 10) @ ''.'' @ decimal (n mod 10))"

record DisplayValues = MasteryDistribution +
  masteredPercent :: string
  learningPercent :: string
  needsPracticePercent :: string
  percentageSum :: rat

definition getMasteryDistributionDisplayValues :: "MasteryDistribution \<Rightarrow> DisplayValues" where
  "getMasteryDistributionDisplayValues distribution =
     (let masteredPercent' =
            calculatePercentage (mastered distribution) (MasteryDistribution.total distribution);
          learningPercent' =
            calculatePercentage (learning distribution) (MasteryDistribution.total distribution);
          needsPracticePercent' =
            calculatePercentage (needsPractice distribution)
              (MasteryDistribution.total distribution)
      in \<lparr>mastered = mastered distribution,
          learning = learning distribution,
          needsPractice = needsPractice distribution,
          total = MasteryDistribution.total distribution,
          masteredPercent = toFixed1 masteredPercent' @ ''%'',
          learningPercent = toFixed1 learningPercent' @ ''%'',
          needsPracticePercent = toFixed1 needsPracticePercent' @ ''%'',
          percentageSum = js_add (js_add masteredPercent' learningPercent') needsPracticePercent'\<rparr>)"

section \<open>Test helper (__tests__: createCharacterItem)\<close>

definition createCharacterItem ::
  "jsstring \<Rightarrow> nat \<Rightarrow> nat \<Rightarrow> MasteryLevel \<Rightarrow> ContentType \<Rightarrow> CharacterMasteryItem" where
  "createCharacterItem character' correct' incorrect' masteryLevel' contentType' =
     (let total = correct' + incorrect';
          accuracy = (if total > 0 then js_mul (js_div (of_nat correct') (of_nat total)) 100 else 0)
      in \<lparr>character = character',
          correct = correct',
          incorrect = incorrect',
          total = total,
          accuracy = accuracy,
          masteryLevel = masteryLevel',
          contentType = contentType'\<rparr>)"

section \<open>Auxiliary notions for the statements\<close>

text \<open>The number of items of a list at a given mastery level.\<close>

definition countLevel :: "MasteryLevel \<Rightarrow> CharacterMasteryItem list \<Rightarrow> nat" where
  "countLevel l items = length (filter (\<lambda>item. masteryLevel item = l) items)"

text \<open>
  A later heap preserves an earlier one when every array allocated in the earlier heap is
  still there with the same elements in the same order.
\<close>

definition preserves :: "heap \<Rightarrow> heap \<Rightarrow> bool" where
  "preserves h h' \<longleftrightarrow> length h \<le> length h' \<and> (\<forall>a < length h. h' ! a = h ! a)"

section \<open>Rounding to double precision\<close>

text \<open>
  The binade is the floor of the binary logarithm, and the rounding agrees with the known
  doubles: 0.1 is \<open>3602879701896397 / 2\<^sup>5\<^sup>5\<close>, and \<open>2\<^sup>5\<^sup>3 + 1\<close> is a tie that
  goes to the even neighbour.
\<close>

lemma binary64_one_tenth: "binary64 (1 / 10) = 3602879701896397 / 2 ^ 55"
  by code_simp

lemma binary64_one_third: "binary64 (1 / 3) = 6004799503160661 / 2 ^ 54"
  by code_simp

lemma binary64_exact_examples:
  "binary64 1 = 1" "binary64 100 = 100" "binary64 (1 / 2) = 1 / 2" "binary64 (2 ^ 53 + 1) = 2 ^ 53"
  by code_simp+

lemma binade_lower:
  assumes "0 < x"
  shows "2 powi (binade x) \<le> x"
proof -
  obtain p q where pq: "quotient_of x = (p, q)" by (cases "quotient_of x")
  have q: "0 < q" using pq by (rule quotient_of_denom_pos)
  have x: "x = of_int p / of_int q" using pq by (rule quotient_of_div)
  have p: "0 < p"
    using assms q unfolding x by (simp add: zero_less_divide_iff)
  define e where "e = bitlen p - bitlen q"
  have bp: "1 \<le> bitlen p" using p bitlen_eq_zero_iff [of p] bitlen_nonneg [of p] by linarith
  have bq: "0 \<le> bitlen q" by (rule bitlen_nonneg)
  have "(2::int) ^ nat (bitlen p - 1) \<le> p" using bitlen_bounds [OF p] by simp
  then have "(of_int ((2::int) ^ nat (bitlen p - 1)) :: rat) \<le> of_int p"
    by (simp only: of_int_le_iff)
  then have lo: "(2::rat) powi (bitlen p - 1) \<le> of_int p"
    using bp by (simp add: power_int_def)
  have "q < 2 ^ nat (bitlen q)" using bitlen_bounds [OF q] by simp
  then have "(of_int q :: rat) < of_int ((2::int) ^ nat (bitlen q))"
    by (simp only: of_int_less_iff)
  then have hi: "(of_int q :: rat) < 2 powi (bitlen q)"
    using bq by (simp add: power_int_def)
  have qpos: "(0::rat) < of_int q" using q by simp
  have "(2::rat) powi (e - 1) = 2 powi (bitlen p - 1) / 2 powi (bitlen q)"
    unfolding e_def by (subst power_int_diff [symmetric]) (simp_all add: algebra_simps)
  also have "\<dots> \<le> of_int p / 2 powi (bitlen q)"
    using lo by (simp add: divide_right_mono)
  also have "\<dots> \<le> of_int p / of_int q"
    using hi qpos p by (intro divide_left_mono) (simp_all add: less_imp_le)
  finally have low: "(2::rat) powi (e - 1) \<le> x" unfolding x .
  have "binade x = (if x < 2 powi e then e - 1 else e)"
    unfolding binade_def pq e_def by simp
  then show ?thesis using low by (auto simp: not_less)
qed

lemma binade_upper:
  assumes "0 < x"
  shows "x < 2 powi (binade x + 1)"
proof -
  obtain p q where pq: "quotient_of x = (p, q)" by (cases "quotient_of x")
  have q: "0 < q" using pq by (rule quotient_of_denom_pos)
  have x: "x = of_int p / of_int q" using pq by (rule quotient_of_div)
  have p: "0 < p"
    using assms q unfolding x by (simp add: zero_less_divide_iff)
  define e where "e = bitlen p - bitlen q"
  have bq: "1 \<le> bitlen q" using q bitlen_eq_zero_iff [of q] bitlen_nonneg [of q] by linarith
  have bp: "0 \<le> bitlen p" by (rule bitlen_nonneg)
  have "p < 2 ^ nat (bitlen p)" using bitlen_bounds [OF p] by simp
  then have "(of_int p :: rat) < of_int ((2::int) ^ nat (bitlen p))"
    by (simp only: of_int_less_iff)
  then have hi: "(of_int p :: rat) < 2 powi (bitlen p)"
    using bp by (simp add: power_int_def)
  have "(2::int) ^ nat (bitlen q - 1) \<le> q" using bitlen_bounds [OF q] by simp
  then have "(of_int ((2::int) ^ nat (bitlen q - 1)) :: rat) \<le> of_int q"
    by (simp only: of_int_le_iff)
  then have lo: "(2::rat) powi (bitlen q - 1) \<le> of_int q"
    using bq by (simp add: power_int_def)
  have qpos: "(0::rat) < of_int q" using q by simp
  have lpos: "(0::rat) < 2 powi (bitlen q - 1)" by simp
  have "x = of_int p / of_int q" by (rule x)
  also have "\<dots> \<le> of_int p / 2 powi (bitlen q - 1)"
  proof (rule divide_left_mono [OF lo])
    show "(0::rat) \<le> of_int p" using p by simp
    show "(0::rat) < of_int q * 2 powi (bitlen q - 1)" using qpos lpos by (rule mult_pos_pos)
  qed
  also have "\<dots> < 2 powi (bitlen p) / 2 powi (bitlen q - 1)"
    using hi lpos by (simp add: divide_strict_right_mono)
  also have "\<dots> = 2 powi (e + 1)"
    unfolding e_def by (subst power_int_diff [symmetric]) (simp_all add: algebra_simps)
  finally have up: "x < 2 powi (e + 1)" .
  have "binade x = (if x < 2 powi e then e - 1 else e)"
    unfolding binade_def pq e_def by simp
  then show ?thesis using up by auto
qed

lemma roundTiesToEven_error: "\<bar>of_int (roundTiesToEven y) - y\<bar> \<le> 1 / 2"
proof -
  have "of_int \<lfloor>y\<rfloor> \<le> y" "y < of_int \<lfloor>y\<rfloor> + 1" by linarith+
  then show ?thesis
    unfolding roundTiesToEven_def Let_def by (auto simp: abs_le_iff)
qed

lemma binary64_error:
  assumes "0 \<le> x"
  shows "\<bar>binary64 x - x\<bar> \<le> x / 2 ^ 53"
proof (cases "x = 0")
  case True
  then show ?thesis by (simp add: binary64_def)
next
  case False
  with assms have pos: "0 < x" by simp
  define ulp :: rat where "ulp = 2 powi (binade x - 52)"
  have ulp_pos: "0 < ulp" unfolding ulp_def by simp
  have b: "binary64 x = of_int (roundTiesToEven (x / ulp)) * ulp"
    using pos by (simp add: binary64_def ulp_def Let_def)
  have "binary64 x - x = (of_int (roundTiesToEven (x / ulp)) - x / ulp) * ulp"
    unfolding b using ulp_pos by (simp add: algebra_simps)
  then have "\<bar>binary64 x - x\<bar> = \<bar>of_int (roundTiesToEven (x / ulp)) - x / ulp\<bar> * ulp"
    using ulp_pos by (simp add: abs_mult)
  also have "\<dots> \<le> (1 / 2) * ulp"
    using roundTiesToEven_error [of "x / ulp"] ulp_pos by (intro mult_right_mono) simp_all
  finally have half: "\<bar>binary64 x - x\<bar> \<le> (1 / 2) * ulp" .
  have "ulp = 2 powi (binade x) / 2 ^ 52"
    unfolding ulp_def by (subst power_int_diff) simp_all
  then have "(1 / 2) * ulp = (2::rat) powi (binade x) / 2 ^ 53"
    by simp
  also have "\<dots> \<le> x / 2 ^ 53"
    using binade_lower [OF pos] by (simp add: divide_right_mono)
  finally show ?thesis using half by linarith
qed

lemma binary64_bounds:
  assumes "0 \<le> x"
  shows "(1 - 1 / 2 ^ 53) * x \<le> binary64 x" and "binary64 x \<le> (1 + 1 / 2 ^ 53) * x"
proof -
  define d :: rat where "d = x / 2 ^ 53"
  have e: "\<bar>binary64 x - x\<bar> \<le> d" unfolding d_def by (rule binary64_error [OF assms])
  have l: "(1 - 1 / 2 ^ 53) * x = x - d" unfolding d_def by (simp add: algebra_simps)
  have h: "(1 + 1 / 2 ^ 53) * x = x + d" unfolding d_def by (simp add: algebra_simps)
  show "(1 - 1 / 2 ^ 53) * x \<le> binary64 x" unfolding l using e by linarith
  show "binary64 x \<le> (1 + 1 / 2 ^ 53) * x" unfolding h using e by linarith
qed

lemma binary64_nonneg:
  assumes "0 \<le> x"
  shows "0 \<le> binary64 x"
proof -
  have "0 \<le> (1 - 1 / 2 ^ 53) * x" using assms by simp
  then show ?thesis using binary64_bounds(1) [OF assms] by linarith
qed


lemma roundTiesToEven_le:
  assumes "y \<le> of_int n"
  shows "roundTiesToEven y \<le> n"
proof -
  have f: "\<lfloor>y\<rfloor> \<le> n" using assms by (simp add: floor_le_iff)
  show ?thesis
  proof (cases "\<lfloor>y\<rfloor> = n")
    case True
    then have "y - of_int \<lfloor>y\<rfloor> \<le> 0" using assms by simp
    then show ?thesis using True by (simp add: roundTiesToEven_def Let_def)
  next
    case False
    then have "\<lfloor>y\<rfloor> + 1 \<le> n" using f by simp
    then show ?thesis by (auto simp: roundTiesToEven_def Let_def)
  qed
qed

lemma roundTiesToEven_ge:
  assumes "of_int n \<le> y"
  shows "n \<le> roundTiesToEven y"
proof -
  have "n \<le> \<lfloor>y\<rfloor>" using assms by (simp add: le_floor_iff)
  then show ?thesis by (auto simp: roundTiesToEven_def Let_def)
qed

lemma binade_less_53:
  assumes "0 < x" and "x < 2 ^ 53"
  shows "binade x \<le> 52"
proof (rule ccontr)
  assume "\<not> binade x \<le> 52"
  then have "53 \<le> binade x" by simp
  then have "(2::rat) powi 53 \<le> 2 powi (binade x)" by (intro power_int_increasing) simp_all
  also have "\<dots> \<le> x" by (rule binade_lower [OF assms(1)])
  finally show False using assms(2) by simp
qed

text \<open>Rounding never crosses an integer below \<open>2\<^sup>5\<^sup>3\<close>, so these integers are doubles.\<close>

lemma binary64_integer_grid:
  assumes "0 < x" and "x < 2 ^ 53"
  obtains k :: nat where "binary64 x = of_int (roundTiesToEven (x * 2 ^ k)) / 2 ^ k"
proof -
  define k where "k = nat (52 - binade x)"
  have e: "binade x \<le> 52" by (rule binade_less_53 [OF assms])
  have "(2::rat) powi (binade x - 52) = 2 powi (- int k)" using e by (simp add: k_def)
  also have "\<dots> = 1 / 2 ^ k" by (simp add: power_int_minus_divide)
  finally have ulp: "(2::rat) powi (binade x - 52) = 1 / 2 ^ k" .
  have "binary64 x = of_int (roundTiesToEven (x * 2 ^ k)) / 2 ^ k"
    using assms(1) by (simp add: binary64_def Let_def ulp)
  then show ?thesis by (rule that)
qed

lemma binary64_le_nat:
  assumes "x \<le> of_nat m" and "m < 2 ^ 53" and "0 \<le> x"
  shows "binary64 x \<le> of_nat m"
proof (cases "x = 0")
  case True
  then show ?thesis by (simp add: binary64_def)
next
  case False
  then have pos: "0 < x" using assms(3) by simp
  have "(of_nat m :: rat) < of_nat (2 ^ 53)" using assms(2) by (simp only: of_nat_less_iff)
  then have lt: "x < 2 ^ 53" using assms(1) by simp
  obtain k :: nat where b: "binary64 x = of_int (roundTiesToEven (x * 2 ^ k)) / 2 ^ k"
    using binary64_integer_grid [OF pos lt] by blast
  have "x * 2 ^ k \<le> of_nat m * 2 ^ k" using assms(1) by (simp add: mult_right_mono)
  also have "\<dots> = of_int (int m * 2 ^ k)" by simp
  finally have "roundTiesToEven (x * 2 ^ k) \<le> int m * 2 ^ k" by (rule roundTiesToEven_le)
  then have "(of_int (roundTiesToEven (x * 2 ^ k)) :: rat) \<le> of_int (int m * 2 ^ k)"
    by (simp only: of_int_le_iff)
  then have "(of_int (roundTiesToEven (x * 2 ^ k)) :: rat) \<le> of_nat m * 2 ^ k" by simp
  then show ?thesis unfolding b by (simp add: pos_divide_le_eq)
qed

lemma binary64_ge_nat:
  assumes "of_nat m \<le> x" and "x < 2 ^ 53"
  shows "of_nat m \<le> binary64 x"
proof (cases "x = 0")
  case True
  then show ?thesis using assms(1) by (simp add: binary64_def)
next
  case False
  have "(0::rat) \<le> of_nat m" by simp
  then have pos: "0 < x" using assms(1) False by linarith
  obtain k :: nat where b: "binary64 x = of_int (roundTiesToEven (x * 2 ^ k)) / 2 ^ k"
    using binary64_integer_grid [OF pos assms(2)] by blast
  have "(of_int (int m * 2 ^ k) :: rat) = of_nat m * 2 ^ k" by simp
  also have "\<dots> \<le> x * 2 ^ k" using assms(1) by (simp add: mult_right_mono)
  finally have "int m * 2 ^ k \<le> roundTiesToEven (x * 2 ^ k)" by (rule roundTiesToEven_ge)
  then have "(of_int (int m * 2 ^ k) :: rat) \<le> of_int (roundTiesToEven (x * 2 ^ k))"
    by (simp only: of_int_le_iff)
  then have "(of_nat m :: rat) * 2 ^ k \<le> of_int (roundTiesToEven (x * 2 ^ k))" by simp
  then show ?thesis unfolding b by (simp add: pos_le_divide_eq)
qed

lemma binary64_of_nat:
  assumes "n < 2 ^ 53"
  shows "binary64 (of_nat n) = of_nat n"
proof (rule antisym)
  show "binary64 (of_nat n) \<le> of_nat n"
    by (rule binary64_le_nat [OF _ assms]) simp_all
  have "(of_nat n :: rat) < of_nat (2 ^ 53)" using assms by (simp only: of_nat_less_iff)
  then have "(of_nat n :: rat) < 2 ^ 53" by simp
  then show "of_nat n \<le> binary64 (of_nat n)"
    by (intro binary64_ge_nat) simp_all
qed

lemma js_add_nat:
  assumes "a + b < 2 ^ 53"
  shows "js_add (of_nat a) (of_nat b) = of_nat (a + b)"
  unfolding js_add_def using binary64_of_nat [OF assms] by simp

text \<open>
  A percentage \<open>(a / b) * 100\<close> goes through two roundings, each with relative error at
  most \<open>2\<^sup>-\<^sup>5\<^sup>3\<close>; for a part of a whole it stays between 0 and 100.
\<close>

lemma js_percent_bounds:
  assumes "0 \<le> a" and "0 < b"
  shows "(1 - 1 / 2 ^ 53)\<^sup>2 * (100 * a / b) \<le> js_mul (js_div a b) 100"
    and "js_mul (js_div a b) 100 \<le> (1 + 1 / 2 ^ 53)\<^sup>2 * (100 * a / b)"
    and "0 \<le> js_mul (js_div a b) 100"
proof -
  define q :: rat where "q = a / b"
  define fq where "fq = binary64 q"
  define lo :: rat where "lo = 1 - 1 / 2 ^ 53"
  define hi :: rat where "hi = 1 + 1 / 2 ^ 53"
  have lo0: "0 \<le> lo" and hi0: "0 \<le> hi" by (simp_all add: lo_def hi_def)
  have q0: "0 \<le> q" unfolding q_def using assms by simp
  have fq0: "0 \<le> fq" unfolding fq_def using q0 by (rule binary64_nonneg)
  have fq_lo: "lo * q \<le> fq" and fq_hi: "fq \<le> hi * q"
    unfolding fq_def lo_def hi_def using binary64_bounds [OF q0] by simp_all
  have p: "js_mul (js_div a b) 100 = binary64 (fq * 100)"
    by (simp add: js_mul_def js_div_def fq_def q_def)
  have m0: "0 \<le> fq * 100" using fq0 by simp
  have "lo * (lo * q * 100) \<le> lo * (fq * 100)"
    using fq_lo lo0 by (intro mult_left_mono) simp_all
  also have "\<dots> \<le> binary64 (fq * 100)"
    unfolding lo_def using binary64_bounds(1) [OF m0] .
  finally show "(1 - 1 / 2 ^ 53)\<^sup>2 * (100 * a / b) \<le> js_mul (js_div a b) 100"
    unfolding p lo_def q_def by (simp add: power2_eq_square algebra_simps)
  have "binary64 (fq * 100) \<le> hi * (fq * 100)"
    unfolding hi_def using binary64_bounds(2) [OF m0] .
  also have "\<dots> \<le> hi * (hi * q * 100)"
    using fq_hi hi0 by (intro mult_left_mono) simp_all
  finally show "js_mul (js_div a b) 100 \<le> (1 + 1 / 2 ^ 53)\<^sup>2 * (100 * a / b)"
    unfolding p hi_def q_def by (simp add: power2_eq_square algebra_simps)
  show "0 \<le> js_mul (js_div a b) 100" unfolding p using m0 by (rule binary64_nonneg)
qed

lemma js_percent_le_100:
  assumes "0 \<le> a" and "0 < b" and "a \<le> b"
  shows "js_mul (js_div a b) 100 \<le> 100"
proof -
  have q0: "0 \<le> a / b" using assms by simp
  have q1: "a / b \<le> 1" using assms by simp
  have "binary64 (a / b) \<le> of_nat 1"
    by (rule binary64_le_nat) (use q0 q1 in simp_all)
  then have f1: "binary64 (a / b) \<le> 1" by simp
  have f0: "0 \<le> binary64 (a / b)" using q0 by (rule binary64_nonneg)
  have "binary64 (binary64 (a / b) * 100) \<le> of_nat 100"
    by (rule binary64_le_nat) (use f0 f1 in simp_all)
  then show ?thesis by (simp add: js_mul_def js_div_def)
qed

lemma js_percent_close:
  assumes "0 \<le> a" and "0 < b" and "a \<le> b"
  shows "\<bar>js_mul (js_div a b) 100 - 100 * a / b\<bar> \<le> 1 / 10 ^ 13"
proof -
  define x :: rat where "x = 100 * a / b"
  define r where "r = js_mul (js_div a b) 100"
  define lo :: rat where "lo = (1 - 1 / 2 ^ 53)\<^sup>2"
  define hi :: rat where "hi = (1 + 1 / 2 ^ 53)\<^sup>2"
  define eps :: rat where "eps = 1 / 10 ^ 15"
  have x0: "0 \<le> x" unfolding x_def using assms by simp
  have "a / b \<le> 1" using assms by simp
  then have x1: "x \<le> 100" unfolding x_def by simp
  have l: "lo * x \<le> r" and h: "r \<le> hi * x"
    unfolding lo_def hi_def x_def r_def using js_percent_bounds [OF assms(1,2)] by simp_all
  have nlo: "1 - eps \<le> lo" unfolding lo_def eps_def by (simp add: power_divide)
  have nhi: "hi \<le> 1 + eps" unfolding hi_def eps_def by (simp add: power_divide)
  have "(1 - eps) * x \<le> lo * x" using nlo x0 by (rule mult_right_mono)
  then have a1: "x - eps * x \<le> r" using l by (simp add: algebra_simps)
  have "hi * x \<le> (1 + eps) * x" using nhi x0 by (rule mult_right_mono)
  then have a2: "r \<le> x + eps * x" using h by (simp add: algebra_simps)
  have "eps * x \<le> eps * 100" using x1 by (intro mult_left_mono) (simp_all add: eps_def)
  also have "\<dots> = 1 / 10 ^ 13" by (simp add: eps_def)
  finally have "eps * x \<le> 1 / 10 ^ 13" .
  then have "\<bar>r - x\<bar> \<le> 1 / 10 ^ 13" using a1 a2 by linarith
  then show ?thesis unfolding r_def x_def .
qed

section \<open>Mastery classification\<close>

lemma quotient_gap:
  fixes c t n :: nat
  assumes "0 < t"
  shows "(of_nat c / of_nat t :: rat) < of_nat n / 10 \<Longrightarrow>
           (of_nat c / of_nat t :: rat) \<le> of_nat n / 10 - 1 / (10 * of_nat t)"
    and "(of_nat n / 10 :: rat) < of_nat c / of_nat t \<Longrightarrow>
           (of_nat n / 10 :: rat) + 1 / (10 * of_nat t) \<le> of_nat c / of_nat t"
proof -
  have tpos: "(0::rat) < of_nat t" using assms by simp
  {
    assume "(of_nat c / of_nat t :: rat) < of_nat n / 10"
    then have "(of_nat (10 * c) :: rat) < of_nat (n * t)"
      using tpos by (simp add: field_simps)
    then have "10 * c < n * t" by (simp only: of_nat_less_iff)
    then have "10 * c + 1 \<le> n * t" by simp
    then have "(of_nat (10 * c + 1) :: rat) \<le> of_nat (n * t)" by (simp only: of_nat_le_iff)
    then show "(of_nat c / of_nat t :: rat) \<le> of_nat n / 10 - 1 / (10 * of_nat t)"
      using tpos by (simp add: field_simps)
  }
  {
    assume "(of_nat n / 10 :: rat) < of_nat c / of_nat t"
    then have "(of_nat (n * t) :: rat) < of_nat (10 * c)"
      using tpos by (simp add: field_simps)
    then have "n * t < 10 * c" by (simp only: of_nat_less_iff)
    then have "n * t + 1 \<le> 10 * c" by simp
    then have "(of_nat (n * t + 1) :: rat) \<le> of_nat (10 * c)" by (simp only: of_nat_le_iff)
    then have "(of_nat n * of_nat t + 1 :: rat) \<le> 10 * of_nat c" by simp
    then have "(of_nat n * of_nat t + 1 :: rat) / (10 * of_nat t) \<le> 10 * of_nat c / (10 * of_nat t)"
      using tpos by (intro divide_right_mono) simp_all
    moreover have "(of_nat n * of_nat t + 1 :: rat) / (10 * of_nat t) =
        of_nat n / 10 + 1 / (10 * of_nat t)"
      using tpos by (simp add: add_divide_distrib)
    moreover have "(10 * of_nat c / (10 * of_nat t) :: rat) = of_nat c / of_nat t" by simp
    ultimately show "(of_nat n / 10 :: rat) + 1 / (10 * of_nat t) \<le> of_nat c / of_nat t"
      by simp
  }
qed

text \<open>
  Below \<open>2\<^sup>4\<^sup>9\<close> attempts a quotient that differs from a threshold \<open>n / 10\<close> differs from it
  by more than the two roundings can bridge, so comparing the doubles is comparing the
  exact values.
\<close>

lemma rounded_comparison:
  fixes c t n :: nat
  assumes t: "0 < t" "t < 2 ^ 49" and c: "c \<le> t"
    and th: "\<bar>binary64 (of_nat n / 10) - of_nat n / 10\<bar> \<le> 2 / (5 * 2 ^ 53)"
  shows "binary64 (of_nat c / of_nat t) < binary64 (of_nat n / 10) \<longleftrightarrow>
         (of_nat c / of_nat t :: rat) < of_nat n / 10"
proof -
  define q :: rat where "q = of_nat c / of_nat t"
  define \<theta> :: rat where "\<theta> = of_nat n / 10"
  define g :: rat where "g = 1 / (10 * of_nat t)"
  define u :: rat where "u = 1 / 2 ^ 53"
  have tpos: "(0::rat) < of_nat t" using t(1) by simp
  have "(of_nat t :: rat) < of_nat (2 ^ 49)" using t(2) by (simp only: of_nat_less_iff)
  then have tlt: "(of_nat t :: rat) < 2 ^ 49" by simp
  have "1 / (10 * 2 ^ 49) < 1 / (10 * (of_nat t :: rat))"
    using tpos tlt by (intro divide_strict_left_mono) simp_all
  then have gap: "(8 / 5) * u < g" unfolding g_def u_def by simp
  have q0: "0 \<le> q" unfolding q_def by simp
  have "(of_nat c :: rat) \<le> of_nat t" using c by (simp only: of_nat_le_iff)
  then have q1: "q \<le> 1" unfolding q_def using tpos by (simp only: divide_le_eq_1_pos)
  have "\<bar>binary64 q - q\<bar> \<le> q / 2 ^ 53" by (rule binary64_error [OF q0])
  also have "\<dots> \<le> 1 / 2 ^ 53" using q1 by (simp add: divide_right_mono)
  finally have eq: "\<bar>binary64 q - q\<bar> \<le> u" unfolding u_def .
  have eth: "\<bar>binary64 \<theta> - \<theta>\<bar> \<le> (2 / 5) * u" unfolding \<theta>_def u_def using th by simp
  have u0: "0 < u" unfolding u_def by simp
  consider "q < \<theta>" | "q = \<theta>" | "\<theta> < q" by linarith
  then have "binary64 q < binary64 \<theta> \<longleftrightarrow> q < \<theta>"
  proof cases
    case 1
    then have "q \<le> \<theta> - g" unfolding q_def \<theta>_def g_def by (rule quotient_gap(1) [OF t(1)])
    then have "binary64 q < binary64 \<theta>" using eq eth gap u0 by linarith
    then show ?thesis using 1 by simp
  next
    case 2
    then show ?thesis by simp
  next
    case 3
    then have "\<theta> + g \<le> q" unfolding q_def \<theta>_def g_def by (rule quotient_gap(2) [OF t(1)])
    then have "binary64 \<theta> < binary64 q" using eq eth gap u0 by linarith
    then show ?thesis using 3 by simp
  qed
  then show ?thesis unfolding q_def \<theta>_def .
qed

lemma binary64_thresholds:
  "binary64 (9 / 10) = 8106479329266893 / 2 ^ 53"
  "binary64 (7 / 10) = 3152519739159347 / 2 ^ 52"
  by code_simp+

lemma classifyCharacter_exact:
  assumes "c + i < 2 ^ 49"
  shows "classifyCharacter c i =
     (if 10 \<le> c + i \<and> (9 / 10 :: rat) \<le> of_nat c / of_nat (c + i) then Mastered
      else if 5 \<le> c + i \<and> (of_nat c / of_nat (c + i) :: rat) < 7 / 10 then NeedsPractice
      else Learning)"
proof -
  define t where "t = c + i"
  define q :: rat where "q = of_nat c / of_nat t"
  have t49: "t < 2 ^ 49" using assms by (simp add: t_def)
  have "(2::nat) ^ 49 \<le> 2 ^ 53" by simp
  then have "c + i < 2 ^ 53" using assms by linarith
  then have total: "js_add (of_nat c) (of_nat i) = of_nat t"
    unfolding t_def by (rule js_add_nat)
  show ?thesis
  proof (cases "t = 0")
    case True
    then show ?thesis
      unfolding classifyCharacter_def total Let_def t_def [symmetric] by simp
  next
    case False
    then have tpos: "0 < t" by simp
    have ct: "c \<le> t" by (simp add: t_def)
    have "binary64 q < binary64 (of_nat 9 / 10) \<longleftrightarrow> q < of_nat 9 / 10"
      unfolding q_def by (rule rounded_comparison [OF tpos t49 ct]) (simp add: binary64_thresholds)
    then have m: "binary64 (9 / 10) \<le> binary64 q \<longleftrightarrow> 9 / 10 \<le> q" by (simp add: not_less [symmetric])
    have "binary64 q < binary64 (of_nat 7 / 10) \<longleftrightarrow> q < of_nat 7 / 10"
      unfolding q_def by (rule rounded_comparison [OF tpos t49 ct]) (simp add: binary64_thresholds)
    then have n: "binary64 q < binary64 (7 / 10) \<longleftrightarrow> q < 7 / 10" by simp
    have t10: "(10 :: rat) \<le> of_nat t \<longleftrightarrow> 10 \<le> t"
      using of_nat_le_iff [of 10 t, where ?'a = rat] by simp
    have t5: "(5 :: rat) \<le> of_nat t \<longleftrightarrow> 5 \<le> t"
      using of_nat_le_iff [of 5 t, where ?'a = rat] by simp
    have t0: "(of_nat t :: rat) \<noteq> 0" using tpos by simp
    have "classifyCharacter c i =
       (if 10 \<le> t \<and> 9 / 10 \<le> q then Mastered
        else if 5 \<le> t \<and> q < 7 / 10 then NeedsPractice
        else Learning)"
      unfolding classifyCharacter_def total Let_def js_div_def
        MASTERED_MIN_ATTEMPTS_def MASTERED_MIN_ACCURACY_def
        NEEDS_PRACTICE_MIN_ATTEMPTS_def NEEDS_PRACTICE_MAX_ACCURACY_def
        q_def [symmetric]
      by (simp only: t0 if_False m n t10 t5)
    then show ?thesis unfolding q_def t_def .
  qed
qed

text \<open>
  C1, amended: for all non-negative integers correct and incorrect with
  total = correct + incorrect below \<open>2\<^sup>4\<^sup>9\<close>: \<open>classifyCharacter\<close> returns mastered if and
  only if total \<ge> 10 and correct/total \<ge> 0.9; it returns needs-practice if and only if
  total \<ge> 5 and correct/total < 0.7, so that exactly 70% is not needs-practice and
  \<open>classifyCharacter(7, 3)\<close> is learning; it returns learning in every other case,
  including total = 0. The three levels are the constructors of the result type, so every
  pair is mapped to exactly one of them. Here correct/total, 0.9 and 0.7 are the exact
  values; the code compares their doubles.
\<close>

theorem classifyCharacter_levels:
  assumes "c + i < 2 ^ 49"
  shows
  "(classifyCharacter c i = Mastered \<longleftrightarrow>
      c + i \<ge> 10 \<and> (of_nat c / of_nat (c + i) :: rat) \<ge> 9 / 10) \<and>
   (classifyCharacter c i = NeedsPractice \<longleftrightarrow>
      c + i \<ge> 5 \<and> (of_nat c / of_nat (c + i) :: rat) < 7 / 10) \<and>
   (classifyCharacter c i = Learning \<longleftrightarrow>
      \<not> (c + i \<ge> 10 \<and> (of_nat c / of_nat (c + i) :: rat) \<ge> 9 / 10) \<and>
      \<not> (c + i \<ge> 5 \<and> (of_nat c / of_nat (c + i) :: rat) < 7 / 10)) \<and>
   (c + i = 0 \<longrightarrow> classifyCharacter c i = Learning) \<and>
   classifyCharacter 7 3 = Learning"
proof -
  define q :: rat where "q = of_nat c / of_nat (c + i)"
  have level: "classifyCharacter c i =
     (if 10 \<le> c + i \<and> 9 / 10 \<le> q then Mastered
      else if 5 \<le> c + i \<and> q < 7 / 10 then NeedsPractice
      else Learning)"
    unfolding q_def by (rule classifyCharacter_exact [OF assms])
  have zero: "c + i = 0 \<longrightarrow> classifyCharacter c i = Learning"
    unfolding level by simp
  have "(7::nat) + 3 < 2 ^ 49" by simp
  then have "classifyCharacter 7 3 =
     (if 10 \<le> (7::nat) + 3 \<and> (9 / 10 :: rat) \<le> of_nat 7 / of_nat (7 + 3) then Mastered
      else if 5 \<le> (7::nat) + 3 \<and> (of_nat 7 / of_nat (7 + 3) :: rat) < 7 / 10 then NeedsPractice
      else Learning)"
    by (rule classifyCharacter_exact)
  then have seven: "classifyCharacter 7 3 = Learning" by simp
  have "(classifyCharacter c i = Mastered \<longleftrightarrow> c + i \<ge> 10 \<and> q \<ge> 9 / 10) \<and>
   (classifyCharacter c i = NeedsPractice \<longleftrightarrow> c + i \<ge> 5 \<and> q < 7 / 10) \<and>
   (classifyCharacter c i = Learning \<longleftrightarrow>
      \<not> (c + i \<ge> 10 \<and> q \<ge> 9 / 10) \<and> \<not> (c + i \<ge> 5 \<and> q < 7 / 10))"
    unfolding level by auto
  then show ?thesis using zero seven unfolding q_def by blast
qed

theorem classifyCharacter_levels_witness:
  "classifyCharacter 9 1 = Mastered \<and> classifyCharacter 69 31 = NeedsPractice \<and>
   classifyCharacter 0 0 = Learning \<and> classifyCharacter 7 3 = Learning \<and>
   classifyCharacter 9 0 = Learning \<and> classifyCharacter 1 3 = Learning"
proof -
  have b: "(9::nat) + 1 < 2 ^ 49" "(69::nat) + 31 < 2 ^ 49" "(0::nat) + 0 < 2 ^ 49"
    "(9::nat) + 0 < 2 ^ 49" "(1::nat) + 3 < 2 ^ 49"
    by simp_all
  show ?thesis
    using classifyCharacter_levels [OF b(1)] classifyCharacter_levels [OF b(2)]
      classifyCharacter_levels [OF b(3)] classifyCharacter_levels [OF b(4)]
      classifyCharacter_levels [OF b(5)]
    by simp
qed

text \<open>
  C1, as stated, for all non-negative integers: with 8999999999999999 attempts of which
  8099999999999999 are correct the exact quotient is below 9/10 but rounds to the double
  0.9, and the result is mastered; with 2000000000000003 attempts of which
  1400000000000002 are correct the exact quotient is below 7/10 but rounds to the double
  0.7, and the result is learning.
\<close>

theorem classifyCharacter_rounded_quotient:
  "classifyCharacter 8099999999999999 900000000000000 = Mastered \<and>
   \<not> ((of_nat 8099999999999999 / of_nat (8099999999999999 + 900000000000000) :: rat) \<ge> 9 / 10) \<and>
   classifyCharacter 1400000000000002 600000000000001 = Learning \<and>
   (1400000000000002 :: nat) + 600000000000001 \<ge> 5 \<and>
   (of_nat 1400000000000002 / of_nat (1400000000000002 + 600000000000001) :: rat) < 7 / 10"
proof -
  have s1: "binary64 8999999999999999 = 8999999999999999" by code_simp
  have q1: "binary64 (8099999999999999 / 8999999999999999) = 8106479329266893 / 2 ^ 53" by code_simp
  have s2: "binary64 2000000000000003 = 2000000000000003" by code_simp
  have q2: "binary64 (1400000000000002 / 2000000000000003) = 3152519739159347 / 2 ^ 52" by code_simp
  have a: "classifyCharacter 8099999999999999 900000000000000 = Mastered"
    by (simp add: classifyCharacter_def Let_def js_add_def js_div_def s1 q1 binary64_thresholds
        MASTERED_MIN_ATTEMPTS_def MASTERED_MIN_ACCURACY_def)
  have b: "classifyCharacter 1400000000000002 600000000000001 = Learning"
    by (simp add: classifyCharacter_def Let_def js_add_def js_div_def s2 q2 binary64_thresholds
        MASTERED_MIN_ATTEMPTS_def MASTERED_MIN_ACCURACY_def
        NEEDS_PRACTICE_MIN_ATTEMPTS_def NEEDS_PRACTICE_MAX_ACCURACY_def)
  show ?thesis using a b by simp
qed

section \<open>Accuracy\<close>

lemma calculateAccuracy_percent:
  assumes "c + i < 2 ^ 53" and "c + i \<noteq> 0"
  shows "calculateAccuracy c i = js_mul (js_div (of_nat c) (of_nat (c + i))) 100"
proof -
  have "(of_nat (c + i) :: rat) \<noteq> 0" using assms(2) by (simp only: of_nat_eq_0_iff) simp
  then show ?thesis
    unfolding calculateAccuracy_def js_add_nat [OF assms(1)] Let_def by simp
qed

lemma js_percent_whole:
  assumes "0 < b"
  shows "js_mul (js_div b b) 100 = 100"
proof -
  have one: "binary64 1 = 1" by code_simp
  have hundred: "binary64 100 = 100" by code_simp
  show ?thesis using assms by (simp add: js_mul_def js_div_def one hundred)
qed

lemma js_percent_none:
  "js_mul (js_div 0 b) 100 = 0"
  by (simp add: js_mul_def js_div_def binary64_def)

text \<open>
  C2, amended: for all non-negative integers correct and incorrect with
  correct + incorrect below \<open>2\<^sup>5\<^sup>3\<close>, \<open>calculateAccuracy\<close> lies in [0, 100]; it is exactly 0
  when correct + incorrect = 0; otherwise it is the double computed as
  (correct / total) * 100, which differs from 100 * correct / (correct + incorrect) by at
  most \<open>10\<^sup>-\<^sup>1\<^sup>3\<close>; it is exactly 100 when incorrect = 0 and correct > 0, and exactly 0 when
  correct = 0 and incorrect > 0.
\<close>

theorem calculateAccuracy_range:
  assumes "c + i < 2 ^ 53"
  shows
  "0 \<le> calculateAccuracy c i \<and> calculateAccuracy c i \<le> 100 \<and>
   (c + i = 0 \<longrightarrow> calculateAccuracy c i = 0) \<and>
   (c + i \<noteq> 0 \<longrightarrow>
      \<bar>calculateAccuracy c i - 100 * of_nat c / of_nat (c + i)\<bar> \<le> 1 / 10 ^ 13) \<and>
   (i = 0 \<and> c > 0 \<longrightarrow> calculateAccuracy c i = 100) \<and>
   (c = 0 \<and> i > 0 \<longrightarrow> calculateAccuracy c i = 0)"
proof (cases "c + i = 0")
  case True
  have "js_add (of_nat c) (of_nat i) = 0"
    unfolding js_add_nat [OF assms] using True by simp
  then have "calculateAccuracy c i = 0" by (simp add: calculateAccuracy_def)
  then show ?thesis using True by simp
next
  case False
  define a :: rat where "a = of_nat c"
  define b :: rat where "b = of_nat (c + i)"
  have r: "calculateAccuracy c i = js_mul (js_div a b) 100"
    unfolding a_def b_def by (rule calculateAccuracy_percent [OF assms False])
  have a0: "0 \<le> a" unfolding a_def by simp
  have b0: "0 < b" unfolding b_def using False by (simp only: of_nat_0_less_iff)
  have ab: "a \<le> b" unfolding a_def b_def by (simp only: of_nat_le_iff le_add1)
  have r0: "0 \<le> calculateAccuracy c i" unfolding r by (rule js_percent_bounds(3) [OF a0 b0])
  have r1: "calculateAccuracy c i \<le> 100" unfolding r by (rule js_percent_le_100 [OF a0 b0 ab])
  have close: "\<bar>calculateAccuracy c i - 100 * of_nat c / of_nat (c + i)\<bar> \<le> 1 / 10 ^ 13"
    unfolding r using js_percent_close [OF a0 b0 ab] unfolding a_def b_def .
  have all: "i = 0 \<and> c > 0 \<longrightarrow> calculateAccuracy c i = 100"
  proof
    assume h: "i = 0 \<and> c > 0"
    then have "b = a" by (simp add: a_def b_def)
    then show "calculateAccuracy c i = 100" unfolding r using b0 by (simp add: js_percent_whole)
  qed
  have none: "c = 0 \<and> i > 0 \<longrightarrow> calculateAccuracy c i = 0"
  proof
    assume "c = 0 \<and> i > 0"
    then have "a = 0" by (simp add: a_def)
    then show "calculateAccuracy c i = 0" unfolding r by (simp add: js_percent_none)
  qed
  show ?thesis using False r0 r1 close all none by blast
qed

theorem calculateAccuracy_range_witness:
  "calculateAccuracy 0 0 = 0 \<and> \<bar>calculateAccuracy 9 1 - 90\<bar> \<le> 1 / 10 ^ 13 \<and>
   calculateAccuracy 4 0 = 100 \<and> calculateAccuracy 0 4 = 0"
proof -
  have b: "(0::nat) + 0 < 2 ^ 53" "(9::nat) + 1 < 2 ^ 53" "(4::nat) + 0 < 2 ^ 53"
    "(0::nat) + 4 < 2 ^ 53"
    by simp_all
  show ?thesis
    using calculateAccuracy_range [OF b(1)] calculateAccuracy_range [OF b(2)]
      calculateAccuracy_range [OF b(3)] calculateAccuracy_range [OF b(4)]
    by simp
qed

text \<open>
  C2, as stated: otherwise the result equals 100 * correct / (correct + incorrect). For 7
  correct and 93 incorrect answers the double is 7.000000000000001.
\<close>

theorem calculateAccuracy_rounded:
  "(7::nat) + 93 \<noteq> 0 \<and>
   calculateAccuracy 7 93 = 7 + 1 / 2 ^ 50 \<and>
   calculateAccuracy 7 93 \<noteq> 100 * of_nat 7 / of_nat (7 + 93)"
proof -
  have s: "binary64 100 = 100" by code_simp
  have q: "binary64 (7 / 100) = 1261007895663739 / 2 ^ 54" by code_simp
  have p: "binary64 (1261007895663739 / 2 ^ 54 * 100) = 7 + 1 / 2 ^ 50" by code_simp
  have t: "js_add (of_nat 7) (of_nat 93) = 100" unfolding js_add_def by (simp add: s)
  have d: "js_div (of_nat 7) 100 = 1261007895663739 / 2 ^ 54"
    unfolding js_div_def using q by simp
  have m: "js_mul (1261007895663739 / 2 ^ 54) 100 = 7 + 1 / 2 ^ 50"
    unfolding js_mul_def by (rule p)
  have "calculateAccuracy 7 93 = 7 + 1 / 2 ^ 50"
    unfolding calculateAccuracy_def t Let_def d m by simp
  then show ?thesis by simp
qed

section \<open>Mastery distribution\<close>

lemma countItems_closed:
  "countItems d items =
     d\<lparr>mastered := mastered d + countLevel Mastered items,
       learning := learning d + countLevel Learning items,
       needsPractice := needsPractice d + countLevel NeedsPractice items\<rparr>"
proof (induction items arbitrary: d)
  case Nil
  show ?case by (simp add: countLevel_def)
next
  case (Cons item items)
  show ?case
    by (cases "masteryLevel item") (simp_all add: Cons.IH countItem_def countLevel_def)
qed

lemma countLevel_sum:
  "countLevel Mastered items + countLevel Learning items + countLevel NeedsPractice items =
     length items"
proof (induction items)
  case Nil
  show ?case by (simp add: countLevel_def)
next
  case (Cons item items)
  then show ?case
    by (cases "masteryLevel item") (simp_all add: countLevel_def)
qed

lemma countLevel_mset:
  assumes "mset xs = mset ys"
  shows "countLevel l xs = countLevel l ys"
proof -
  have "mset (filter (\<lambda>item. masteryLevel item = l) xs) =
        mset (filter (\<lambda>item. masteryLevel item = l) ys)"
    unfolding mset_filter by (simp only: assms)
  then show ?thesis
    unfolding countLevel_def by (rule mset_eq_length)
qed

lemma calculateMasteryDistribution_closed:
  "calculateMasteryDistribution items =
     \<lparr>mastered = countLevel Mastered items,
      learning = countLevel Learning items,
      needsPractice = countLevel NeedsPractice items,
      total = length items\<rparr>"
  by (simp add: calculateMasteryDistribution_def countItems_closed)

text \<open>
  C3. For every list of classified items, the empty one included,
  \<open>calculateMasteryDistribution\<close> returns counts with
  mastered + learning + needsPractice = total = the length of the list; the empty list
  gives four zeros; and the result is the same for every reordering of the list.
\<close>

theorem calculateMasteryDistribution_invariant:
  "mastered (calculateMasteryDistribution items) +
     learning (calculateMasteryDistribution items) +
     needsPractice (calculateMasteryDistribution items) =
     total (calculateMasteryDistribution items) \<and>
   total (calculateMasteryDistribution items) = length items \<and>
   calculateMasteryDistribution [] =
     \<lparr>mastered = 0, learning = 0, needsPractice = 0, total = 0\<rparr> \<and>
   (\<forall>items'. mset items' = mset items \<longrightarrow>
      calculateMasteryDistribution items' = calculateMasteryDistribution items)"
proof -
  have perm: "\<forall>items'. mset items' = mset items \<longrightarrow>
      calculateMasteryDistribution items' = calculateMasteryDistribution items"
  proof (intro allI impI)
    fix items' :: "CharacterMasteryItem list"
    assume m: "mset items' = mset items"
    have len: "length items' = length items" using m by (rule mset_eq_length)
    show "calculateMasteryDistribution items' = calculateMasteryDistribution items"
      unfolding calculateMasteryDistribution_closed
      by (simp only: countLevel_mset [OF m] len)
  qed
  have sum: "mastered (calculateMasteryDistribution items) +
     learning (calculateMasteryDistribution items) +
     needsPractice (calculateMasteryDistribution items) =
     total (calculateMasteryDistribution items)"
    by (simp add: calculateMasteryDistribution_closed countLevel_sum)
  have len: "total (calculateMasteryDistribution items) = length items"
    by (simp add: calculateMasteryDistribution_closed)
  have empty: "calculateMasteryDistribution [] =
     \<lparr>mastered = 0, learning = 0, needsPractice = 0, total = 0\<rparr>"
    by (simp add: calculateMasteryDistribution_def)
  show ?thesis using sum len empty perm by (intro conjI)
qed


theorem calculateMasteryDistribution_invariant_witness:
  "calculateMasteryDistribution
     [createCharacterItem [0x3042] 10 0 Mastered Kana,
      createCharacterItem [0x65E5] 1 9 NeedsPractice Kanji] =
   calculateMasteryDistribution
     [createCharacterItem [0x65E5] 1 9 NeedsPractice Kanji,
      createCharacterItem [0x3042] 10 0 Mastered Kana]"
proof -
  let ?a = "createCharacterItem [0x3042] 10 0 Mastered Kana"
  let ?b = "createCharacterItem [0x65E5] 1 9 NeedsPractice Kanji"
  have "mset [?a, ?b] = mset [?b, ?a]" by simp
  with calculateMasteryDistribution_invariant [of "[?b, ?a]"] show ?thesis by blast
qed

section \<open>Content type detection\<close>

lemmas ranges =
  HIRAGANA_START_def HIRAGANA_END_def KATAKANA_START_def KATAKANA_END_def
  KANJI_START_def KANJI_END_def isHiragana_def isKatakana_def isKanji_def isKana_def

text \<open>
  C6. For every string, \<open>detectContentType\<close> applies its rules in order: the empty string
  is vocabulary; a string of more than one code unit is vocabulary; a single code unit in
  [0x3040, 0x309F] or [0x30A0, 0x30FF] is kana; a single code unit in [0x4E00, 0x9FAF] is
  kanji; any other single code unit is kanji. In particular U+3042 and U+30A2 are kana,
  U+65E5 is kanji, the two code units U+65E5 U+672C are vocabulary, and so is the empty
  string.
\<close>

theorem detectContentType_rules:
  "(s = [] \<longrightarrow> detectContentType s = Vocabulary) \<and>
   (length s > 1 \<longrightarrow> detectContentType s = Vocabulary) \<and>
   (length s = 1 \<and>
      (0x3040 \<le> unat (s ! 0) \<and> unat (s ! 0) \<le> 0x309F \<or>
       0x30A0 \<le> unat (s ! 0) \<and> unat (s ! 0) \<le> 0x30FF) \<longrightarrow>
      detectContentType s = Kana) \<and>
   (length s = 1 \<and> 0x4E00 \<le> unat (s ! 0) \<and> unat (s ! 0) \<le> 0x9FAF \<longrightarrow>
      detectContentType s = Kanji) \<and>
   (length s = 1 \<and>
      \<not> (0x3040 \<le> unat (s ! 0) \<and> unat (s ! 0) \<le> 0x309F \<or>
         0x30A0 \<le> unat (s ! 0) \<and> unat (s ! 0) \<le> 0x30FF) \<longrightarrow>
      detectContentType s = Kanji) \<and>
   detectContentType [0x3042] = Kana \<and>
   detectContentType [0x30A2] = Kana \<and>
   detectContentType [0x65E5] = Kanji \<and>
   detectContentType [0x65E5, 0x672C] = Vocabulary \<and>
   detectContentType [] = Vocabulary"
proof -
  have rules: "(s = [] \<longrightarrow> detectContentType s = Vocabulary) \<and>
   (length s > 1 \<longrightarrow> detectContentType s = Vocabulary) \<and>
   (length s = 1 \<and>
      (0x3040 \<le> unat (s ! 0) \<and> unat (s ! 0) \<le> 0x309F \<or>
       0x30A0 \<le> unat (s ! 0) \<and> unat (s ! 0) \<le> 0x30FF) \<longrightarrow>
      detectContentType s = Kana) \<and>
   (length s = 1 \<and> 0x4E00 \<le> unat (s ! 0) \<and> unat (s ! 0) \<le> 0x9FAF \<longrightarrow>
      detectContentType s = Kanji) \<and>
   (length s = 1 \<and>
      \<not> (0x3040 \<le> unat (s ! 0) \<and> unat (s ! 0) \<le> 0x309F \<or>
         0x30A0 \<le> unat (s ! 0) \<and> unat (s ! 0) \<le> 0x30FF) \<longrightarrow>
      detectContentType s = Kanji)"
    unfolding detectContentType_def Let_def ranges by auto
  have a: "detectContentType [0x3042] = Kana"
    by (simp add: detectContentType_def ranges)
  have b: "detectContentType [0x30A2] = Kana"
    by (simp add: detectContentType_def ranges)
  have c: "detectContentType [0x65E5] = Kanji"
    by (simp add: detectContentType_def ranges)
  have d: "detectContentType [0x65E5, 0x672C] = Vocabulary"
    by (simp add: detectContentType_def)
  have e: "detectContentType [] = Vocabulary"
    by (simp add: detectContentType_def)
  show ?thesis using rules a b c d e by blast
qed

theorem detectContentType_rules_witness:
  "detectContentType [] = Vocabulary \<and>
   detectContentType [0x3053, 0x3093] = Vocabulary \<and>
   detectContentType [0x3093] = Kana \<and>
   detectContentType [0x30F3] = Kana \<and>
   detectContentType [0x672C] = Kanji \<and>
   detectContentType [0x0041] = Kanji"
  using detectContentType_rules [of "[]"] detectContentType_rules [of "[0x3053, 0x3093]"]
    detectContentType_rules [of "[0x3093]"] detectContentType_rules [of "[0x30F3]"]
    detectContentType_rules [of "[0x672C]"] detectContentType_rules [of "[0x0041]"]
  by simp

section \<open>Filtering by content type\<close>

text \<open>
  C8. For every list of classified items, filtering with \<open>all\<close> returns the list
  unchanged; every item returned by filtering with a content type has that content type;
  and the sizes of the three per-type results add up to the size of the list.
\<close>

theorem filterCharacterMasteryByType_partition:
  "filterCharacterMasteryByType items All = items \<and>
   (\<forall>t. \<forall>item \<in> set (filterCharacterMasteryByType items (Only t)). contentType item = t) \<and>
   length (filterCharacterMasteryByType items (Only Kana)) +
     length (filterCharacterMasteryByType items (Only Kanji)) +
     length (filterCharacterMasteryByType items (Only Vocabulary)) = length items"
proof -
  have "length (filter (\<lambda>item. contentType item = Kana) items) +
        length (filter (\<lambda>item. contentType item = Kanji) items) +
        length (filter (\<lambda>item. contentType item = Vocabulary) items) = length items"
  proof (induction items)
    case Nil
    show ?case by simp
  next
    case (Cons item items)
    then show ?case by (cases "contentType item") simp_all
  qed
  then show ?thesis by (simp add: filterCharacterMasteryByType_def)
qed

theorem filterCharacterMasteryByType_partition_witness:
  "contentType (createCharacterItem [0x65E5] 1 9 NeedsPractice Kanji) = Kanji"
proof -
  let ?a = "createCharacterItem [0x3042] 10 0 Mastered Kana"
  let ?b = "createCharacterItem [0x65E5] 1 9 NeedsPractice Kanji"
  have "?b \<in> set (filterCharacterMasteryByType [?a, ?b] (Only Kanji))"
    by (simp add: filterCharacterMasteryByType_def createCharacterItem_def)
  with filterCharacterMasteryByType_partition [of "[?a, ?b]"] show ?thesis by blast
qed

section \<open>Example items\<close>

text \<open>The accuracies that \<open>createCharacterItem\<close> computes for the items used as examples.\<close>

lemma example_accuracies:
  "js_mul (js_div 1 2) 100 = 50"
  "js_mul (js_div 5 10) 100 = 50"
  "js_mul (js_div 1 10) 100 = 10"
  "js_mul (js_div 9 10) 100 = 90"
  unfolding js_mul_def js_div_def by code_simp+

section \<open>Top difficult characters\<close>

lemma set_insertBy: "set (insertBy cmp a xs) = insert a (set xs)"
  by (induction xs) auto

lemma set_sortBy: "set (sortBy cmp xs) = set xs"
  unfolding sortBy_def by (induction xs) (simp_all add: set_insertBy)

lemma sorted_insertBy:
  fixes f :: "'a \<Rightarrow> rat"
  assumes "sorted (map f xs)"
  shows "sorted (map f (insertBy (\<lambda>a b. f a - f b) x xs))"
  using assms
proof (induction xs)
  case Nil
  show ?case by simp
next
  case (Cons y ys)
  show ?case
  proof (cases "f x - f y \<le> 0")
    case True
    then have "f x \<le> f y" by simp
    with Cons.prems show ?thesis using True by auto
  next
    case False
    then have "f y \<le> f x" by simp
    with Cons show ?thesis using False by (auto simp: set_insertBy)
  qed
qed

lemma sorted_sortBy:
  fixes f :: "'a \<Rightarrow> rat"
  shows "sorted (map f (sortBy (\<lambda>a b. f a - f b) xs))"
  unfolding sortBy_def by (induction xs) (simp_all add: sorted_insertBy)

lemma getTopCharacters_Difficult:
  "getTopCharacters items c Difficult = getTopDifficultCharacters items c 5"
  by (simp add: getTopCharacters_def getTopDifficultCharacters_def)

lemma getTopCharacters_MasteredFirst:
  "getTopCharacters items c MasteredFirst = getTopMasteredCharacters items c"
  by (simp add: getTopCharacters_def getTopMasteredCharacters_def)

lemma slice0_take: "\<exists>k. slice0 xs c = take k xs \<and> (0 \<le> c \<longrightarrow> int k \<le> c)"
proof -
  define final where
    "final = (if c < 0 then max (int (length xs) + c) 0 else min c (int (length xs)))"
  have "slice0 xs c = take (nat final) xs" by (simp add: slice0_def final_def Let_def)
  moreover have "0 \<le> c \<longrightarrow> int (nat final) \<le> c" by (auto simp: final_def)
  ultimately show ?thesis by blast
qed

text \<open>
  C7. For every list of classified items and every requested count, the top-difficult query
  (\<open>getTopDifficultCharacters\<close> with the default minimum of 5 attempts, and
  \<open>getTopCharacters\<close> with \<open>difficult\<close>, which computes the same list) returns at most
  that many items for a count that is not negative; every returned item has at least 5
  attempts; the returned items are in non-decreasing order of accuracy; and an item with
  fewer than 5 attempts never appears, whatever its accuracy.
\<close>

theorem getTopDifficultCharacters_bounds:
  "(0 \<le> n \<longrightarrow> int (length (getTopDifficultCharacters items n 5)) \<le> n) \<and>
   (\<forall>item \<in> set (getTopDifficultCharacters items n 5).
      CharacterMasteryItem.total item \<ge> 5) \<and>
   sorted (map CharacterMasteryItem.accuracy (getTopDifficultCharacters items n 5)) \<and>
   (\<forall>item \<in> set items.
      CharacterMasteryItem.total item < 5 \<longrightarrow>
      item \<notin> set (getTopDifficultCharacters items n 5)) \<and>
   getTopCharacters items n Difficult = getTopDifficultCharacters items n 5"
proof -
  define eligible where
    "eligible = filter (\<lambda>item. CharacterMasteryItem.total item \<ge> 5) items"
  define ranked where
    "ranked = sortBy (\<lambda>a b. CharacterMasteryItem.accuracy a - CharacterMasteryItem.accuracy b)
       eligible"
  obtain k where k: "slice0 ranked n = take k ranked" and kn: "0 \<le> n \<longrightarrow> int k \<le> n"
    using slice0_take [of ranked n] by blast
  have "getTopDifficultCharacters items n 5 = slice0 ranked n"
    by (simp add: getTopDifficultCharacters_def ranked_def eligible_def)
  then have r: "getTopDifficultCharacters items n 5 = take k ranked"
    by (simp only: k)
  have "length (take k ranked) \<le> k" by simp
  then have len: "0 \<le> n \<longrightarrow> int (length (take k ranked)) \<le> n"
    using kn by linarith
  have sub: "set (take k ranked) \<subseteq> set eligible"
    using set_take_subset [of k ranked] by (simp add: ranked_def set_sortBy)
  have ge: "\<forall>item \<in> set (take k ranked). CharacterMasteryItem.total item \<ge> 5"
    using sub by (auto simp: eligible_def)
  have "sorted (map CharacterMasteryItem.accuracy ranked)"
    unfolding ranked_def by (rule sorted_sortBy)
  then have "sorted (take k (map CharacterMasteryItem.accuracy ranked))"
    by (rule sorted_wrt_take)
  then have srt: "sorted (map CharacterMasteryItem.accuracy (take k ranked))"
    by (simp only: take_map)
  have never: "\<forall>item \<in> set items.
      CharacterMasteryItem.total item < 5 \<longrightarrow> item \<notin> set (take k ranked)"
    using ge by auto
  show ?thesis
    unfolding getTopCharacters_Difficult r using len ge srt never by blast
qed

theorem getTopDifficultCharacters_bounds_witness:
  "getTopDifficultCharacters
     [createCharacterItem [0x3042] 1 1 Learning Kana,
      createCharacterItem [0x65E5] 5 5 NeedsPractice Kanji,
      createCharacterItem [0x672C] 1 9 NeedsPractice Kanji] 1 5 =
   [createCharacterItem [0x672C] 1 9 NeedsPractice Kanji] \<and>
   (0::int) \<le> 1 \<and>
   CharacterMasteryItem.total (createCharacterItem [0x672C] 1 9 NeedsPractice Kanji) \<ge> 5 \<and>
   CharacterMasteryItem.total (createCharacterItem [0x3042] 1 1 Learning Kana) < 5 \<and>
   createCharacterItem [0x3042] 1 1 Learning Kana \<notin>
     set (getTopDifficultCharacters
       [createCharacterItem [0x3042] 1 1 Learning Kana,
        createCharacterItem [0x65E5] 5 5 NeedsPractice Kanji,
        createCharacterItem [0x672C] 1 9 NeedsPractice Kanji] 1 5)"
proof -
  let ?a = "createCharacterItem [0x3042] 1 1 Learning Kana"
  let ?b = "createCharacterItem [0x65E5] 5 5 NeedsPractice Kanji"
  let ?c = "createCharacterItem [0x672C] 1 9 NeedsPractice Kanji"
  have v: "getTopDifficultCharacters [?a, ?b, ?c] 1 5 = [?c]"
    by (simp add: getTopDifficultCharacters_def createCharacterItem_def sortBy_def slice0_def
        example_accuracies)
  have m: "?a \<in> set [?a, ?b, ?c]" by simp
  have t: "CharacterMasteryItem.total ?a < 5" by (simp add: createCharacterItem_def)
  have g: "CharacterMasteryItem.total ?c \<ge> 5" by (simp add: createCharacterItem_def)
  from getTopDifficultCharacters_bounds [of 1 "[?a, ?b, ?c]"] m t
  have "?a \<notin> set (getTopDifficultCharacters [?a, ?b, ?c] 1 5)" by blast
  with v g t show ?thesis by simp
qed

section \<open>The queries leave their input alone\<close>

lemma preserves_refl: "preserves h h"
  by (simp add: preserves_def)

lemma preserves_trans: "preserves h h1 \<Longrightarrow> preserves h1 h2 \<Longrightarrow> preserves h h2"
  by (auto simp: preserves_def)

lemma newArray_spec:
  assumes "newArray xs h = (r, h')"
  shows "preserves h h'" and "r = length h" and "r < length h'" and "h' ! r = xs"
  using assms by (auto simp: newArray_def preserves_def nth_append)

lemma Array_sort_fresh:
  assumes "Array_sort cmp r h = (r', h')" and "length h0 \<le> r" and "preserves h0 h"
    and "r < length h"
  shows "preserves h0 h'" and "r' = r" and "h' ! r' = sortBy cmp (h ! r)" and "r' < length h'"
  using assms by (auto simp: Array_sort_def preserves_def)

lemma getTopDifficultCharacters_heap_spec:
  assumes "items < length h"
    and "getTopDifficultCharacters_heap items c m h = (r, h')"
  shows "preserves h h' \<and> r < length h' \<and> h' ! r = getTopDifficultCharacters (h ! items) c m"
proof -
  let ?p = "\<lambda>item. CharacterMasteryItem.total item \<ge> m"
  let ?cmp = "\<lambda>a b. CharacterMasteryItem.accuracy a - CharacterMasteryItem.accuracy b"
  obtain f h1 where f: "Array_filter ?p items h = (f, h1)" by (cases "Array_filter ?p items h")
  obtain s h2 where s: "Array_sort ?cmp f h1 = (s, h2)" by (cases "Array_sort ?cmp f h1")
  have res: "Array_slice0 c s h2 = (r, h')"
    using assms(2) by (simp add: getTopDifficultCharacters_heap_def f s)
  have f': "newArray (filter ?p (h ! items)) h = (f, h1)" using f by (simp add: Array_filter_def)
  note F = newArray_spec [OF f']
  have "length h \<le> f" using F(2) by simp
  note S = Array_sort_fresh [OF s this F(1) F(3)]
  have res': "newArray (slice0 (h2 ! s) c) h2 = (r, h')" using res by (simp add: Array_slice0_def)
  note R = newArray_spec [OF res']
  have "preserves h h'" using S(1) R(1) by (rule preserves_trans)
  moreover have "h' ! r = getTopDifficultCharacters (h ! items) c m"
    using R(4) S(3) S(2) F(4) by (simp add: getTopDifficultCharacters_def)
  ultimately show ?thesis using R(3) by simp
qed

lemma getTopMasteredCharacters_heap_spec:
  assumes "items < length h"
    and "getTopMasteredCharacters_heap items c h = (r, h')"
  shows "preserves h h' \<and> r < length h' \<and> h' ! r = getTopMasteredCharacters (h ! items) c"
proof -
  let ?p = "\<lambda>item. masteryLevel item = Mastered"
  let ?cmp = "\<lambda>a b. CharacterMasteryItem.accuracy b - CharacterMasteryItem.accuracy a"
  obtain f h1 where f: "Array_filter ?p items h = (f, h1)" by (cases "Array_filter ?p items h")
  obtain s h2 where s: "Array_sort ?cmp f h1 = (s, h2)" by (cases "Array_sort ?cmp f h1")
  have res: "Array_slice0 c s h2 = (r, h')"
    using assms(2) by (simp add: getTopMasteredCharacters_heap_def f s)
  have f': "newArray (filter ?p (h ! items)) h = (f, h1)" using f by (simp add: Array_filter_def)
  note F = newArray_spec [OF f']
  have "length h \<le> f" using F(2) by simp
  note S = Array_sort_fresh [OF s this F(1) F(3)]
  have res': "newArray (slice0 (h2 ! s) c) h2 = (r, h')" using res by (simp add: Array_slice0_def)
  note R = newArray_spec [OF res']
  have "preserves h h'" using S(1) R(1) by (rule preserves_trans)
  moreover have "h' ! r = getTopMasteredCharacters (h ! items) c"
    using R(4) S(3) S(2) F(4) by (simp add: getTopMasteredCharacters_def)
  ultimately show ?thesis using R(3) by simp
qed

lemma getTopCharacters_heap_spec:
  assumes "items < length h"
    and "getTopCharacters_heap items c srt h = (r, h')"
  shows "preserves h h' \<and> r < length h' \<and> h' ! r = getTopCharacters (h ! items) c srt"
proof -
  let ?p = "\<lambda>char. if srt = Difficult then CharacterMasteryItem.total char \<ge> 5
                   else masteryLevel char = Mastered"
  let ?cmp = "\<lambda>a b. if srt = Difficult
                then CharacterMasteryItem.accuracy a - CharacterMasteryItem.accuracy b
                else CharacterMasteryItem.accuracy b - CharacterMasteryItem.accuracy a"
  obtain f h1 where f: "Array_filter ?p items h = (f, h1)" by (cases "Array_filter ?p items h")
  obtain k h2 where k: "Array_spread f h1 = (k, h2)" by (cases "Array_spread f h1")
  obtain s h3 where s: "Array_sort ?cmp k h2 = (s, h3)" by (cases "Array_sort ?cmp k h2")
  have res: "Array_slice0 c s h3 = (r, h')"
    using assms(2) by (simp add: getTopCharacters_heap_def f k s)
  have f': "newArray (filter ?p (h ! items)) h = (f, h1)" using f by (simp add: Array_filter_def)
  note F = newArray_spec [OF f']
  have k': "newArray (h1 ! f) h1 = (k, h2)" using k by (simp add: Array_spread_def)
  note K = newArray_spec [OF k']
  have hk: "preserves h h2" using F(1) K(1) by (rule preserves_trans)
  have "length h \<le> k" using K(2) F(1) by (simp add: preserves_def)
  note S = Array_sort_fresh [OF s this hk K(3)]
  have res': "newArray (slice0 (h3 ! s) c) h3 = (r, h')" using res by (simp add: Array_slice0_def)
  note R = newArray_spec [OF res']
  have "preserves h h'" using S(1) R(1) by (rule preserves_trans)
  moreover have "h' ! r = getTopCharacters (h ! items) c srt"
    using R(4) S(3) S(2) K(4) F(4) by (simp add: getTopCharacters_def Let_def)
  ultimately show ?thesis using R(3) by simp
qed

lemma filterCharacterMasteryByType_heap_spec:
  assumes "items < length h"
    and "filterCharacterMasteryByType_heap items flt h = (r, h')"
  shows "preserves h h' \<and> r < length h' \<and>
         h' ! r = filterCharacterMasteryByType (h ! items) flt"
proof (cases flt)
  case All
  then show ?thesis
    using assms by (auto simp: filterCharacterMasteryByType_heap_def
        filterCharacterMasteryByType_def preserves_refl)
next
  case (Only t)
  then have "newArray (filter (\<lambda>item. contentType item = t) (h ! items)) h = (r, h')"
    using assms(2) by (simp add: filterCharacterMasteryByType_heap_def Array_filter_def)
  note R = newArray_spec [OF this]
  show ?thesis using R Only by (simp add: filterCharacterMasteryByType_def)
qed

text \<open>
  \<open>sort\<close> by itself does overwrite the array it is given: the queries are safe because
  they sort a fresh copy.
\<close>

lemma Array_sort_overwrites:
  "snd (Array_sort (\<lambda>a b. CharacterMasteryItem.accuracy a - CharacterMasteryItem.accuracy b) 0
     [[createCharacterItem [0x3042] 9 1 Mastered Kana,
       createCharacterItem [0x65E5] 1 9 NeedsPractice Kanji]]) ! 0 =
   [createCharacterItem [0x65E5] 1 9 NeedsPractice Kanji,
    createCharacterItem [0x3042] 9 1 Mastered Kana]"
  by (simp add: Array_sort_def sortBy_def createCharacterItem_def example_accuracies)

text \<open>
  C9. The derived queries never mutate their input: after \<open>getTopDifficultCharacters\<close>,
  \<open>getTopMasteredCharacters\<close>, \<open>filterCharacterMasteryByType\<close> or \<open>getTopCharacters\<close> on
  an array of classified items, that array holds the same elements in the same order (and
  so does every other array that existed before the call); the array each query returns
  holds the result computed from the input.
\<close>

theorem queries_do_not_mutate:
  assumes "items < length h"
  shows
   "snd (getTopDifficultCharacters_heap items c m h) ! items = h ! items \<and>
    snd (getTopMasteredCharacters_heap items c h) ! items = h ! items \<and>
    snd (filterCharacterMasteryByType_heap items flt h) ! items = h ! items \<and>
    snd (getTopCharacters_heap items c srt h) ! items = h ! items \<and>
    preserves h (snd (getTopDifficultCharacters_heap items c m h)) \<and>
    preserves h (snd (getTopMasteredCharacters_heap items c h)) \<and>
    preserves h (snd (filterCharacterMasteryByType_heap items flt h)) \<and>
    preserves h (snd (getTopCharacters_heap items c srt h)) \<and>
    (let (r, h') = getTopDifficultCharacters_heap items c m h
     in h' ! r = getTopDifficultCharacters (h ! items) c m) \<and>
    (let (r, h') = getTopMasteredCharacters_heap items c h
     in h' ! r = getTopMasteredCharacters (h ! items) c) \<and>
    (let (r, h') = filterCharacterMasteryByType_heap items flt h
     in h' ! r = filterCharacterMasteryByType (h ! items) flt) \<and>
    (let (r, h') = getTopCharacters_heap items c srt h
     in h' ! r = getTopCharacters (h ! items) c srt)"
proof -
  obtain r1 h1 where 1: "getTopDifficultCharacters_heap items c m h = (r1, h1)"
    by (cases "getTopDifficultCharacters_heap items c m h")
  obtain r2 h2 where 2: "getTopMasteredCharacters_heap items c h = (r2, h2)"
    by (cases "getTopMasteredCharacters_heap items c h")
  obtain r3 h3 where 3: "filterCharacterMasteryByType_heap items flt h = (r3, h3)"
    by (cases "filterCharacterMasteryByType_heap items flt h")
  obtain r4 h4 where 4: "getTopCharacters_heap items c srt h = (r4, h4)"
    by (cases "getTopCharacters_heap items c srt h")
  note A = getTopDifficultCharacters_heap_spec [OF assms 1]
  note B = getTopMasteredCharacters_heap_spec [OF assms 2]
  note C = filterCharacterMasteryByType_heap_spec [OF assms 3]
  note D = getTopCharacters_heap_spec [OF assms 4]
  have "h1 ! items = h ! items" "h2 ! items = h ! items"
       "h3 ! items = h ! items" "h4 ! items = h ! items"
    using A B C D assms by (simp_all add: preserves_def)
  then show ?thesis using A B C D by (simp add: 1 2 3 4)
qed


theorem queries_do_not_mutate_witness:
  "snd (getTopDifficultCharacters_heap 0 1 5
     [[createCharacterItem [0x3042] 9 1 Mastered Kana,
       createCharacterItem [0x65E5] 1 9 NeedsPractice Kanji]]) ! 0 =
   [createCharacterItem [0x3042] 9 1 Mastered Kana,
    createCharacterItem [0x65E5] 1 9 NeedsPractice Kanji] \<and>
   snd (getTopCharacters_heap 0 1 Difficult
     [[createCharacterItem [0x3042] 9 1 Mastered Kana,
       createCharacterItem [0x65E5] 1 9 NeedsPractice Kanji]]) ! 0 =
   [createCharacterItem [0x3042] 9 1 Mastered Kana,
    createCharacterItem [0x65E5] 1 9 NeedsPractice Kanji]"
proof -
  let ?h = "[[createCharacterItem [0x3042] 9 1 Mastered Kana,
              createCharacterItem [0x65E5] 1 9 NeedsPractice Kanji]]"
  have "0 < length ?h" by simp
  from queries_do_not_mutate [OF this, of 1 5 All Difficult] show ?thesis by simp
qed

section \<open>Gauntlet aggregation\<close>


lemma promiseAll3_Inl:
  assumes "isl p \<or> isl q \<or> isl r"
  shows "\<exists>e. promiseAll3 p q r = Inl e"
  using assms by (cases p; cases q; cases r) (simp_all add: promiseAll3_def)






section \<open>Gauntlet fetch failure\<close>

text \<open>
  C5. If one of the three per-type gauntlet fetches rejects, the gauntlet value is null, the
  loading flag is cleared and no exception leaves \<open>refreshGauntletStats\<close>; the error
  cell, however, stays null: \<open>loadGauntletStats\<close> catches the rejection itself, so the
  handler that would store the message never runs.
\<close>

theorem refreshGauntletStats_fetch_failure:
  assumes "isl kanaFetch \<or> isl kanjiFetch \<or> isl vocabFetch"
  shows "gauntletStats (refreshGauntletStats kanaFetch kanjiFetch vocabFetch s) = None \<and>
         isLoading (refreshGauntletStats kanaFetch kanjiFetch vocabFetch s) = False \<and>
         error (refreshGauntletStats kanaFetch kanjiFetch vocabFetch s) = None"
proof -
  obtain e where "promiseAll3 kanaFetch kanjiFetch vocabFetch = Inl e"
    using promiseAll3_Inl [OF assms] by blast
  then show ?thesis
    by (simp add: refreshGauntletStats_def loadGauntletStats_def Let_def)
qed


theorem refreshGauntletStats_fetch_failure_witness:
  "refreshGauntletStats (Inl (Error ''boom''))
     (Inr \<lparr>OverallStats.totalSessions = 4, completedSessions = 2, totalCorrect = 30,
           totalWrong = 10, bestStreak = 7, fastestTime = Some 5000\<rparr>)
     (Inr \<lparr>OverallStats.totalSessions = 1, completedSessions = 1, totalCorrect = 3,
           totalWrong = 1, bestStreak = 9, fastestTime = Some 4000\<rparr>)
     initialHookState =
   \<lparr>gauntletStats = None, isLoading = False, error = None,
    console = [Warn ''[useStatsAggregator] Failed to load gauntlet stats:'' (Error ''boom'')]\<rparr>"
proof -
  let ?j = "Inr \<lparr>OverallStats.totalSessions = 4, completedSessions = 2, totalCorrect = 30,
           totalWrong = 10, bestStreak = 7, fastestTime = Some 5000\<rparr> :: js_error + OverallStats"
  let ?v = "Inr \<lparr>OverallStats.totalSessions = 1, completedSessions = 1, totalCorrect = 3,
           totalWrong = 1, bestStreak = 9, fastestTime = Some 4000\<rparr> :: js_error + OverallStats"
  let ?r = "refreshGauntletStats (Inl (Error ''boom'')) ?j ?v initialHookState"
  have "isl (Inl (Error ''boom'') :: js_error + OverallStats) \<or> isl ?j \<or> isl ?v" by simp
  from refreshGauntletStats_fetch_failure [OF this, of initialHookState]
  have "gauntletStats ?r = None" "isLoading ?r = False" "error ?r = None" by simp_all
  moreover have "console ?r =
      [Warn ''[useStatsAggregator] Failed to load gauntlet stats:'' (Error ''boom'')]"
    by (simp add: refreshGauntletStats_def loadGauntletStats_def promiseAll3_def
        initialHookState_def)
  ultimately show ?thesis by (cases ?r) simp
qed

text \<open>
  More generally, the promise of \<open>loadGauntletStats\<close> never rejects, and no outcome of the
  fetches ever sets the error cell.
\<close>

lemma loadGauntletStats_never_rejects:
  "\<exists>v. fst (loadGauntletStats kanaFetch kanjiFetch vocabFetch) = Inr v"
proof (cases "promiseAll3 kanaFetch kanjiFetch vocabFetch")
  case (Inl e)
  then show ?thesis by (simp add: loadGauntletStats_def)
next
  case (Inr v)
  then show ?thesis by (cases v) (simp add: loadGauntletStats_def Let_def)
qed

lemma refreshGauntletStats_error_never_set:
  "error (refreshGauntletStats kanaFetch kanjiFetch vocabFetch s) = None"
proof (cases "promiseAll3 kanaFetch kanjiFetch vocabFetch")
  case (Inl e)
  then show ?thesis by (simp add: refreshGauntletStats_def loadGauntletStats_def Let_def)
next
  case (Inr v)
  then show ?thesis
    by (cases v) (simp add: refreshGauntletStats_def loadGauntletStats_def Let_def)
qed

section \<open>Percentages of the mastery distribution\<close>

lemma calculatePercentage_bounds:
  assumes "0 < t"
  shows "(1 - 1 / 2 ^ 53)\<^sup>2 * (100 * of_nat v / of_nat t) \<le> calculatePercentage v t"
    and "calculatePercentage v t \<le> (1 + 1 / 2 ^ 53)\<^sup>2 * (100 * of_nat v / of_nat t)"
    and "0 \<le> calculatePercentage v t"
proof -
  define q :: rat where "q = of_nat v / of_nat t"
  define fq where "fq = binary64 q"
  define lo :: rat where "lo = 1 - 1 / 2 ^ 53"
  define hi :: rat where "hi = 1 + 1 / 2 ^ 53"
  have lo0: "0 \<le> lo" and hi0: "0 \<le> hi" by (simp_all add: lo_def hi_def)
  have q0: "0 \<le> q" unfolding q_def by simp
  have fq0: "0 \<le> fq" unfolding fq_def using q0 by (rule binary64_nonneg)
  have fq_lo: "lo * q \<le> fq" and fq_hi: "fq \<le> hi * q"
    unfolding fq_def lo_def hi_def using binary64_bounds [OF q0] by simp_all
  have p: "calculatePercentage v t = binary64 (fq * 100)"
    using assms by (simp add: calculatePercentage_def js_mul_def js_div_def fq_def q_def)
  have m0: "0 \<le> fq * 100" using fq0 by simp
  have "lo * (lo * q * 100) \<le> lo * (fq * 100)"
    using fq_lo lo0 by (intro mult_left_mono) simp_all
  also have "\<dots> \<le> binary64 (fq * 100)"
    unfolding lo_def using binary64_bounds(1) [OF m0] .
  finally show "(1 - 1 / 2 ^ 53)\<^sup>2 * (100 * of_nat v / of_nat t) \<le> calculatePercentage v t"
    unfolding p lo_def q_def by (simp add: power2_eq_square algebra_simps)
  have "binary64 (fq * 100) \<le> hi * (fq * 100)"
    unfolding hi_def using binary64_bounds(2) [OF m0] .
  also have "\<dots> \<le> hi * (hi * q * 100)"
    using fq_hi hi0 by (intro mult_left_mono) simp_all
  finally show "calculatePercentage v t \<le> (1 + 1 / 2 ^ 53)\<^sup>2 * (100 * of_nat v / of_nat t)"
    unfolding p hi_def q_def by (simp add: power2_eq_square algebra_simps)
  show "0 \<le> calculatePercentage v t" unfolding p using m0 by (rule binary64_nonneg)
qed

lemma percentageSum_close:
  assumes inv: "mastered d + learning d + needsPractice d = total d"
    and pos: "0 < total d"
  shows "\<bar>percentageSum (getMasteryDistributionDisplayValues d) - 100\<bar> \<le> 1 / 10 ^ 13"
proof -
  define t where "t = total d"
  define pm where "pm = calculatePercentage (mastered d) t"
  define pl where "pl = calculatePercentage (learning d) t"
  define pn where "pn = calculatePercentage (needsPractice d) t"
  define am :: rat where "am = 100 * of_nat (mastered d) / of_nat t"
  define al :: rat where "al = 100 * of_nat (learning d) / of_nat t"
  define an :: rat where "an = 100 * of_nat (needsPractice d) / of_nat t"
  define lo :: rat where "lo = 1 - 1 / 2 ^ 53"
  define hi :: rat where "hi = 1 + 1 / 2 ^ 53"
  have t0: "0 < t" using pos by (simp add: t_def)
  have lo0: "0 \<le> lo" and lo1: "lo \<le> 1" and hi0: "0 \<le> hi" and hi1: "1 \<le> hi"
    by (simp_all add: lo_def hi_def)
  have sum: "am + al + an = 100"
  proof -
    have "am + al + an = 100 * of_nat (mastered d + learning d + needsPractice d) / of_nat t"
      unfolding am_def al_def an_def by (simp add: add_divide_distrib algebra_simps)
    also have "\<dots> = 100" using inv t0 by (simp add: t_def)
    finally show ?thesis .
  qed
  have a0: "0 \<le> am" "0 \<le> al" "0 \<le> an" by (simp_all add: am_def al_def an_def)
  have m: "lo\<^sup>2 * am \<le> pm" "pm \<le> hi\<^sup>2 * am" "0 \<le> pm"
    unfolding pm_def am_def lo_def hi_def using calculatePercentage_bounds [OF t0] by simp_all
  have l: "lo\<^sup>2 * al \<le> pl" "pl \<le> hi\<^sup>2 * al" "0 \<le> pl"
    unfolding pl_def al_def lo_def hi_def using calculatePercentage_bounds [OF t0] by simp_all
  have n: "lo\<^sup>2 * an \<le> pn" "pn \<le> hi\<^sup>2 * an" "0 \<le> pn"
    unfolding pn_def an_def lo_def hi_def using calculatePercentage_bounds [OF t0] by simp_all
  define s1 where "s1 = binary64 (pm + pl)"
  define s2 where "s2 = binary64 (s1 + pn)"
  have ml0: "0 \<le> pm + pl" using m(3) l(3) by simp
  have s1_lo: "lo * (pm + pl) \<le> s1" and s1_hi: "s1 \<le> hi * (pm + pl)"
    unfolding s1_def lo_def hi_def using binary64_bounds [OF ml0] by simp_all
  have s10: "0 \<le> s1" unfolding s1_def using ml0 by (rule binary64_nonneg)
  have sn0: "0 \<le> s1 + pn" using s10 n(3) by simp
  have s2_lo: "lo * (s1 + pn) \<le> s2" and s2_hi: "s2 \<le> hi * (s1 + pn)"
    unfolding s2_def lo_def hi_def using binary64_bounds [OF sn0] by simp_all
  have res: "percentageSum (getMasteryDistributionDisplayValues d) = s2"
    by (simp add: getMasteryDistributionDisplayValues_def Let_def js_add_def s2_def s1_def
        pm_def pl_def pn_def t_def)
  have lower: "lo ^ 4 * 100 \<le> s2"
  proof -
    have "lo * pn \<le> 1 * pn" using lo1 n(3) by (rule mult_right_mono)
    then have "lo * pn \<le> pn" by simp
    then have "lo * (pm + pl + pn) \<le> lo * (pm + pl) + pn" by (simp add: algebra_simps)
    also have "\<dots> \<le> s1 + pn" using s1_lo by simp
    finally have a: "lo * (lo * (pm + pl + pn)) \<le> lo * (s1 + pn)"
      using lo0 by (rule mult_left_mono)
    have "lo\<^sup>2 * (am + al + an) \<le> pm + pl + pn"
      using m(1) l(1) n(1) by (simp add: algebra_simps)
    then have "lo * (lo * (lo\<^sup>2 * (am + al + an))) \<le> lo * (lo * (pm + pl + pn))"
      using lo0 by (intro mult_left_mono) simp_all
    then have "lo ^ 4 * 100 \<le> lo * (lo * (pm + pl + pn))"
      unfolding sum by (simp add: power2_eq_square power4_eq_xxxx algebra_simps)
    then show ?thesis using a s2_lo by linarith
  qed
  have upper: "s2 \<le> hi ^ 4 * 100"
  proof -
    have "1 * pn \<le> hi * pn" using hi1 n(3) by (rule mult_right_mono)
    then have "pn \<le> hi * pn" by simp
    then have "hi * (pm + pl) + pn \<le> hi * (pm + pl + pn)" by (simp add: algebra_simps)
    then have "s1 + pn \<le> hi * (pm + pl + pn)" using s1_hi by linarith
    then have a: "hi * (s1 + pn) \<le> hi * (hi * (pm + pl + pn))"
      using hi0 by (rule mult_left_mono)
    have "pm + pl + pn \<le> hi\<^sup>2 * (am + al + an)"
      using m(2) l(2) n(2) by (simp add: algebra_simps)
    then have "hi * (hi * (pm + pl + pn)) \<le> hi * (hi * (hi\<^sup>2 * (am + al + an)))"
      using hi0 by (intro mult_left_mono) simp_all
    then have "hi * (hi * (pm + pl + pn)) \<le> hi ^ 4 * 100"
      unfolding sum by (simp add: power2_eq_square power4_eq_xxxx algebra_simps)
    then show ?thesis using a s2_hi by linarith
  qed
  define eps :: rat where "eps = 1 / 10 ^ 13"
  have nlo: "100 - eps \<le> lo ^ 4 * 100" unfolding lo_def eps_def by (simp add: power_divide)
  have nhi: "hi ^ 4 * 100 \<le> 100 + eps" unfolding hi_def eps_def by (simp add: power_divide)
  have "\<bar>s2 - 100\<bar> \<le> eps" using lower upper nlo nhi by linarith
  then show ?thesis unfolding res eps_def .
qed


text \<open>
  Without rounding the three percentages would add up to 100: the quotients share the
  denominator and the numerators add up to it.
\<close>

lemma percentages_add_up_unrounded:
  fixes m l n t :: nat
  assumes "m + l + n = t" and "0 < t"
  shows "(of_nat m / of_nat t) * 100 + (of_nat l / of_nat t) * 100 + (of_nat n / of_nat t) * 100 =
         (100 :: rat)"
proof -
  have "(of_nat m / of_nat t) * 100 + (of_nat l / of_nat t) * 100 + (of_nat n / of_nat t) * 100 =
        (100 :: rat) * of_nat (m + l + n) / of_nat t"
    by (simp add: add_divide_distrib algebra_simps)
  also have "\<dots> = 100" using assms by simp
  finally show ?thesis .
qed

text \<open>
  C10, as stated: for a distribution with mastered + learning + needsPractice = total and
  total > 0, the three percentages sum to exactly 100. For one item at each level the
  doubles are 33.33333333333333 each, and their sum is 99.99999999999999.
\<close>

theorem percentageSum_not_exact:
  "mastered \<lparr>mastered = 1, learning = 1, needsPractice = 1, total = 3\<rparr> +
     learning \<lparr>mastered = 1, learning = 1, needsPractice = 1, total = 3\<rparr> +
     needsPractice \<lparr>mastered = 1, learning = 1, needsPractice = 1, total = 3\<rparr> =
     total \<lparr>mastered = 1, learning = 1, needsPractice = 1, total = 3\<rparr> \<and>
   0 < total \<lparr>mastered = 1, learning = 1, needsPractice = 1, total = 3\<rparr> \<and>
   percentageSum (getMasteryDistributionDisplayValues
     \<lparr>mastered = 1, learning = 1, needsPractice = 1, total = 3\<rparr>) = 100 - 1 / 2 ^ 46 \<and>
   percentageSum (getMasteryDistributionDisplayValues
     \<lparr>mastered = 1, learning = 1, needsPractice = 1, total = 3\<rparr>) \<noteq> 100"
proof -
  have "percentageSum (getMasteryDistributionDisplayValues
     \<lparr>mastered = 1, learning = 1, needsPractice = 1, total = 3\<rparr>) = 100 - 1 / 2 ^ 46"
    by code_simp
  then show ?thesis by simp
qed

text \<open>
  C10, amended: for a distribution with mastered + learning + needsPractice = total and
  counts below \<open>2\<^sup>5\<^sup>3\<close>: when total > 0 the sum of the three percentages differs from 100
  by at most \<open>10\<^sup>-\<^sup>1\<^sup>3\<close>; when total = 0 the three percentages and their sum are 0 (the
  division is not evaluated) and each is displayed as \<open>0.0%\<close>.
\<close>

theorem percentageSum_within_rounding:
  assumes "mastered d + learning d + needsPractice d = total d" and "total d < 2 ^ 53"
  shows
   "(0 < total d \<longrightarrow>
       \<bar>percentageSum (getMasteryDistributionDisplayValues d) - 100\<bar> \<le> 1 / 10 ^ 13) \<and>
    (total d = 0 \<longrightarrow>
       calculatePercentage (mastered d) (total d) = 0 \<and>
       calculatePercentage (learning d) (total d) = 0 \<and>
       calculatePercentage (needsPractice d) (total d) = 0 \<and>
       percentageSum (getMasteryDistributionDisplayValues d) = 0 \<and>
       masteredPercent (getMasteryDistributionDisplayValues d) = ''0.0%'' \<and>
       learningPercent (getMasteryDistributionDisplayValues d) = ''0.0%'' \<and>
       needsPracticePercent (getMasteryDistributionDisplayValues d) = ''0.0%'')"
proof -
  have zero: "toFixed1 0 = ''0.0''" by code_simp
  have b0: "binary64 0 = 0" by (simp add: binary64_def)
  have "total d = 0 \<longrightarrow>
       calculatePercentage (mastered d) (total d) = 0 \<and>
       calculatePercentage (learning d) (total d) = 0 \<and>
       calculatePercentage (needsPractice d) (total d) = 0 \<and>
       percentageSum (getMasteryDistributionDisplayValues d) = 0 \<and>
       masteredPercent (getMasteryDistributionDisplayValues d) = ''0.0%'' \<and>
       learningPercent (getMasteryDistributionDisplayValues d) = ''0.0%'' \<and>
       needsPracticePercent (getMasteryDistributionDisplayValues d) = ''0.0%''"
    by (simp add: getMasteryDistributionDisplayValues_def calculatePercentage_def js_add_def
        zero b0)
  then show ?thesis using percentageSum_close [OF assms(1)] by blast
qed

theorem percentageSum_within_rounding_witness:
  "\<bar>percentageSum (getMasteryDistributionDisplayValues
      \<lparr>mastered = 1, learning = 1, needsPractice = 1, total = 3\<rparr>) - 100\<bar> \<le> 1 / 10 ^ 13 \<and>
   percentageSum (getMasteryDistributionDisplayValues
      \<lparr>mastered = 0, learning = 0, needsPractice = 0, total = 0\<rparr>) = 0"
  using percentageSum_within_rounding [of "\<lparr>mastered = 1, learning = 1, needsPractice = 1, total = 3\<rparr>"]
    percentageSum_within_rounding [of "\<lparr>mastered = 0, learning = 0, needsPractice = 0, total = 0\<rparr>"]
  by simp

end
